theory Spec2Isabelle
  imports Main
begin

section \<open>Widget state record (services/widget-storage)\<close>

text \<open>
  The persisted record of \<^verbatim>\<open>widget-storage\<close>: \<^verbatim>\<open>WidgetPhoto\<close> and \<^verbatim>\<open>WidgetData\<close>.
  Optional fields are options. Numbers that the code only ever produces as integers
  (\<^verbatim>\<open>currentIndex\<close>, \<^verbatim>\<open>lastUpdated\<close>, dimensions) are \<open>int\<close>. The field \<^verbatim>\<open>id\<close> is
  named \<open>photo_id\<close> because \<open>id\<close> is the identity function of HOL.
  \<^verbatim>\<open>rotationIntervalSeconds\<close> is read by the settings screen and by the background-fetch
  registration as an optional field of the same record.
\<close>

datatype DisplayMode = Single | Slideshow

record WidgetPhoto =
  photo_id :: string
  url :: string
  localPath :: "string option"
  baseUrl :: "string option"
  width :: int
  height :: int

record WidgetData =
  photos :: "WidgetPhoto list"
  currentIndex :: int
  displayMode :: DisplayMode
  lastUpdated :: int
  albumId :: "string option"
  rotationIntervalSeconds :: "int option"

text \<open>
  A value thrown by a collaborator: an \<^verbatim>\<open>Error\<close> with its message, or some other value
  (the catch blocks test \<^verbatim>\<open>err instanceof Error\<close>).
\<close>

datatype thrown = Error string | NonError

datatype platform = Android | Ios

text \<open>
  What one call into the storage layer sees of the outside: \<^verbatim>\<open>Platform.OS\<close>,
  \<^verbatim>\<open>Date.now()\<close>, whether reading the stored record fails, and whether (and with which
  thrown value) writing it fails. The durable record itself is \<open>WidgetData option\<close>,
  \<open>None\<close> when nothing was ever stored.
\<close>

record io =
  os :: platform
  now :: int
  read_fails :: bool
  write_error :: "thrown option"

type_synonym widget_store = "WidgetData option"

text \<open>
  JavaScript's \<^verbatim>\<open>%\<close> on integers truncates towards zero (the result has the sign of
  the dividend); HOL's \<open>mod\<close> on \<open>int\<close> floors. The divisor here is a list length, and
  every use is behind a test that it is not zero.
\<close>

definition js_rem :: "int \<Rightarrow> int \<Rightarrow> int" where
  "js_rem a b = sgn a * (\<bar>a\<bar> mod \<bar>b\<bar>)"

text \<open>\<^verbatim>\<open>saveWidgetData\<close>: writes the record; a failed write is logged and rethrown.\<close>

definition saveWidgetData :: "io \<Rightarrow> WidgetData \<Rightarrow> widget_store \<Rightarrow> thrown + widget_store" where
  "saveWidgetData e widgetData st =
     (case write_error e of
        Some t \<Rightarrow> Inl t
      | None \<Rightarrow> Inr (Some widgetData))"

text \<open>
  \<^verbatim>\<open>saveWidgetPhotos\<close>: on Android builds a fresh record with \<^verbatim>\<open>currentIndex: 0\<close> and
  \<^verbatim>\<open>lastUpdated: Date.now()\<close> and saves it; elsewhere it returns at once. The object
  literal has no \<^verbatim>\<open>rotationIntervalSeconds\<close>.
\<close>

definition saveWidgetPhotos ::
  "io \<Rightarrow> WidgetPhoto list \<Rightarrow> DisplayMode \<Rightarrow> string option \<Rightarrow> widget_store \<Rightarrow> thrown + widget_store" where
  "saveWidgetPhotos e ps mode album st =
     (if os e \<noteq> Android then Inr st
      else saveWidgetData e
             \<lparr>photos = ps, currentIndex = 0, displayMode = mode, lastUpdated = now e,
              albumId = album, rotationIntervalSeconds = None\<rparr> st)"

text \<open>\<^verbatim>\<open>getWidgetData\<close>: \<^verbatim>\<open>null\<close> off Android, when nothing is stored, or when reading throws.\<close>

definition getWidgetData :: "io \<Rightarrow> widget_store \<Rightarrow> WidgetData option" where
  "getWidgetData e st =
     (if os e \<noteq> Android then None
      else if read_fails e then None
      else st)"

text \<open>\<^verbatim>\<open>updateCurrentPhotoIndex\<close>: sets the index and the timestamp of the stored record.\<close>

definition updateCurrentPhotoIndex :: "io \<Rightarrow> int \<Rightarrow> widget_store \<Rightarrow> thrown + widget_store" where
  "updateCurrentPhotoIndex e index st =
     (if os e \<noteq> Android then Inr st
      else case getWidgetData e st of
             None \<Rightarrow> Inr st
           | Some widgetData \<Rightarrow>
               saveWidgetData e (widgetData\<lparr>currentIndex := index, lastUpdated := now e\<rparr>) st)"

text \<open>
  \<^verbatim>\<open>rotateToNextPhoto\<close>: returns when there is no record or no photo; otherwise stores
  \<^verbatim>\<open>(currentIndex + 1) % photos.length\<close>.
\<close>

definition rotateToNextPhoto :: "io \<Rightarrow> widget_store \<Rightarrow> thrown + widget_store" where
  "rotateToNextPhoto e st =
     (case getWidgetData e st of
        None \<Rightarrow> Inr st
      | Some widgetData \<Rightarrow>
          if length (photos widgetData) = 0 then Inr st
          else updateCurrentPhotoIndex e
                 (js_rem (currentIndex widgetData + 1) (int (length (photos widgetData)))) st)"

text \<open>
  Consecutive calls of \<^verbatim>\<open>rotateToNextPhoto\<close>, one per element of the list (what each
  call sees of the outside); a call that throws ends the sequence, as an uncaught
  exception would.
\<close>

fun rotateToNextPhoto_seq :: "io list \<Rightarrow> widget_store \<Rightarrow> thrown + widget_store" where
  "rotateToNextPhoto_seq [] st = Inr st"
| "rotateToNextPhoto_seq (e # es) st =
     (case rotateToNextPhoto e st of
        Inl t \<Rightarrow> Inl t
      | Inr st' \<Rightarrow> rotateToNextPhoto_seq es st')"

section \<open>The widget's own storage access and rotation (widgets/photo-widget)\<close>

text \<open>
  The widget module has its own \<^verbatim>\<open>getWidgetData\<close> and \<^verbatim>\<open>saveWidgetData\<close> on the file
  \<^verbatim>\<open>widget-data.json\<close>, without a platform test; both catch every exception. They
  are modelled on the same stored record as the service (the file is the service's
  storage when the native preferences module is absent).
\<close>

definition widget_getWidgetData :: "io \<Rightarrow> widget_store \<Rightarrow> WidgetData option" where
  "widget_getWidgetData e st = (if read_fails e then None else st)"

definition widget_saveWidgetData :: "io \<Rightarrow> WidgetData \<Rightarrow> widget_store \<Rightarrow> widget_store" where
  "widget_saveWidgetData e widgetData st =
     (case write_error e of
        Some t \<Rightarrow> st
      | None \<Rightarrow> Some widgetData)"

text \<open>\<^verbatim>\<open>rotatePhoto\<close>: returns when there is no record or at most one photo.\<close>

definition rotatePhoto :: "io \<Rightarrow> widget_store \<Rightarrow> widget_store" where
  "rotatePhoto e st =
     (case widget_getWidgetData e st of
        None \<Rightarrow> st
      | Some widgetData \<Rightarrow>
          if length (photos widgetData) \<le> 1 then st
          else widget_saveWidgetData e
                 (widgetData\<lparr>currentIndex :=
                                js_rem (currentIndex widgetData + 1) (int (length (photos widgetData))),
                              lastUpdated := now e\<rparr>) st)"

fun rotatePhoto_seq :: "io list \<Rightarrow> widget_store \<Rightarrow> widget_store" where
  "rotatePhoto_seq [] st = st"
| "rotatePhoto_seq (e # es) st = rotatePhoto_seq es (rotatePhoto e st)"

section \<open>Rendering (widgets/photo-widget)\<close>

text \<open>
  JavaScript array indexing \<^verbatim>\<open>xs[i]\<close>: \<^verbatim>\<open>undefined\<close> outside the array (also for a
  negative index), the element otherwise.
\<close>

definition js_index :: "'a list \<Rightarrow> int \<Rightarrow> 'a option" where
  "js_index xs i = (if 0 \<le> i \<and> i < int (length xs) then Some (xs ! nat i) else None)"

text \<open>\<^verbatim>\<open>a || b\<close> on an optional string: \<^verbatim>\<open>undefined\<close> and the empty string are falsy.\<close>

definition or_string :: "string option \<Rightarrow> string \<Rightarrow> string" where
  "or_string a b = (case a of None \<Rightarrow> b | Some s \<Rightarrow> if s = [] then b else s)"

text \<open>
  \<^verbatim>\<open>widgetData.photos[widgetData.currentIndex] || widgetData.photos[0]\<close>, the expression
  shared by \<^verbatim>\<open>renderPhotoWidget\<close> and \<^verbatim>\<open>renderWidgetForUpdate\<close>. A photo object is
  always truthy, so \<^verbatim>\<open>||\<close> falls through exactly on \<^verbatim>\<open>undefined\<close>. The result is
  \<open>None\<close> when both reads are \<^verbatim>\<open>undefined\<close>.
\<close>

definition currentPhoto :: "WidgetData \<Rightarrow> WidgetPhoto option" where
  "currentPhoto widgetData =
     (case js_index (photos widgetData) (currentIndex widgetData) of
        Some p \<Rightarrow> Some p
      | None \<Rightarrow> js_index (photos widgetData) 0)"

text \<open>
  \<^verbatim>\<open>getImageAsBase64\<close>: a path that already starts with \<^verbatim>\<open>data:image\<close> is returned as it
  is; otherwise the file is read (\<open>fs\<close> is the file system: \<open>None\<close> when the read
  throws), and every exception gives \<^verbatim>\<open>null\<close>.
\<close>

definition getImageAsBase64 :: "(string \<Rightarrow> string option) \<Rightarrow> string \<Rightarrow> string option" where
  "getImageAsBase64 fs imagePath =
     (if take (length ''data:image'') imagePath = ''data:image'' then Some imagePath
      else case fs imagePath of
             None \<Rightarrow> None
           | Some base64 \<Rightarrow> Some (''data:image/jpeg;base64,'' @ base64))"

text \<open>
  What the widget shows: the three trees the render functions build (placeholder,
  image with its click action, error text). The sources hold two versions of the
  widget module; the later one is modelled. The earlier one differs in the click action
  attached to the image and in testing the prefix \<^verbatim>\<open>data:\<close> instead of \<^verbatim>\<open>data:image\<close>; the
  choice of the photo is the same expression in both.
\<close>

datatype rendered =
    TapToAddPhotos
  | Image string string
  | UnableToLoad string

text \<open>
  \<^verbatim>\<open>renderPhotoWidget\<close>. Reading \<^verbatim>\<open>.localPath\<close> of \<^verbatim>\<open>undefined\<close> would throw a
  \<^verbatim>\<open>TypeError\<close>; that is the \<open>Inl\<close> branch.
\<close>

definition renderPhotoWidget ::
  "io \<Rightarrow> (string \<Rightarrow> string option) \<Rightarrow> widget_store \<Rightarrow> thrown + rendered" where
  "renderPhotoWidget e fs st =
     (case widget_getWidgetData e st of
        None \<Rightarrow> Inr TapToAddPhotos
      | Some widgetData \<Rightarrow>
          if length (photos widgetData) = 0 then Inr TapToAddPhotos
          else (case currentPhoto widgetData of
                  None \<Rightarrow> Inl (Error ''TypeError'')
                | Some p \<Rightarrow>
                    (case getImageAsBase64 fs (or_string (localPath p) (url p)) of
                       None \<Rightarrow> Inr (UnableToLoad ''Unable to load photo'')
                     | Some base64Image \<Rightarrow>
                         if base64Image = [] then Inr (UnableToLoad ''Unable to load photo'')
                         else Inr (Image base64Image ''ROTATE_PHOTO''))))"

definition renderWidgetForUpdate ::
  "io \<Rightarrow> (string \<Rightarrow> string option) \<Rightarrow> widget_store \<Rightarrow> thrown + rendered" where
  "renderWidgetForUpdate e fs st =
     (case widget_getWidgetData e st of
        None \<Rightarrow> Inr TapToAddPhotos
      | Some widgetData \<Rightarrow>
          if length (photos widgetData) = 0 then Inr TapToAddPhotos
          else (case currentPhoto widgetData of
                  None \<Rightarrow> Inl (Error ''TypeError'')
                | Some p \<Rightarrow>
                    (case getImageAsBase64 fs (or_string (localPath p) (url p)) of
                       None \<Rightarrow> Inr (UnableToLoad ''Unable to load'')
                     | Some base64Image \<Rightarrow>
                         if base64Image = [] then Inr (UnableToLoad ''Unable to load'')
                         else Inr (Image base64Image ''ROTATE_PHOTO''))))"

section \<open>Rotation triggers\<close>

text \<open>
  The calls a trigger makes, in order: the advance operation (\<^verbatim>\<open>rotateToNextPhoto\<close> of
  the service, \<^verbatim>\<open>rotatePhoto\<close> of the widget) and the re-render request
  (\<^verbatim>\<open>requestWidgetUpdate\<close> of the service, \<^verbatim>\<open>renderPhotoWidget\<close> of the widget).
\<close>

datatype trigger_call =
    RotateToNextPhotoCall
  | RequestWidgetUpdateCall
  | RotatePhotoCall
  | RenderPhotoWidgetCall

datatype BackgroundFetchResult = NoData | NewData | Failed

text \<open>
  The task defined for \<^verbatim>\<open>BACKGROUND_FETCH_TASK\<close> (services/background-fetch, the version
  with a custom interval). \<^verbatim>\<open>requestWidgetUpdate\<close> catches its own exceptions; an
  exception of \<^verbatim>\<open>rotateToNextPhoto\<close> is caught by the task and gives \<^verbatim>\<open>Failed\<close>.
\<close>

definition backgroundFetchTask ::
  "io \<Rightarrow> widget_store \<Rightarrow> BackgroundFetchResult \<times> trigger_call list \<times> widget_store" where
  "backgroundFetchTask e st =
     (case getWidgetData e st of
        None \<Rightarrow> (NoData, [], st)
      | Some widgetData \<Rightarrow>
          if length (photos widgetData) = 0 then (NoData, [], st)
          else if displayMode widgetData = Slideshow \<and> length (photos widgetData) > 1 then
            (case rotateToNextPhoto e st of
               Inl t \<Rightarrow> (Failed, [RotateToNextPhotoCall], st)
             | Inr st' \<Rightarrow> (NewData, [RotateToNextPhotoCall, RequestWidgetUpdateCall], st'))
          else (NoData, [], st))"

text \<open>
  \<^verbatim>\<open>rotateAndUpdate\<close> (the "Next Photo" button): the first component is the exception
  it rethrows, if any.
\<close>

definition rotateAndUpdate ::
  "io \<Rightarrow> widget_store \<Rightarrow> thrown option \<times> trigger_call list \<times> widget_store" where
  "rotateAndUpdate e st =
     (if os e \<noteq> Android then (None, [], st)
      else case getWidgetData e st of
             None \<Rightarrow> (None, [], st)
           | Some widgetData \<Rightarrow>
               if length (photos widgetData) \<le> 1 then (None, [], st)
               else (case rotateToNextPhoto e st of
                       Inl t \<Rightarrow> (Some t, [RotateToNextPhotoCall], st)
                     | Inr st' \<Rightarrow> (None, [RotateToNextPhotoCall, RequestWidgetUpdateCall], st')))"

datatype WidgetAction =
    WIDGET_ADDED | WIDGET_UPDATE | WIDGET_RESIZED | WIDGET_CLICK | WIDGET_DELETED | WIDGET_UNKNOWN

text \<open>
  \<^verbatim>\<open>widgetTaskHandler\<close>: \<open>e\<close> is what \<^verbatim>\<open>rotatePhoto\<close> sees of the outside, \<open>e'\<close> what
  \<^verbatim>\<open>renderPhotoWidget\<close> sees. On a click both branches of the test of \<^verbatim>\<open>clickAction\<close>
  do the same. The result is the calls made, the stored record afterwards, and what
  was rendered (if a render was made).
\<close>

definition widgetTaskHandler ::
  "WidgetAction \<Rightarrow> string \<Rightarrow> io \<Rightarrow> io \<Rightarrow> (string \<Rightarrow> string option) \<Rightarrow> widget_store
     \<Rightarrow> trigger_call list \<times> widget_store \<times> (thrown + rendered) option" where
  "widgetTaskHandler widgetAction clickAction e e' fs st =
     (case widgetAction of
        WIDGET_ADDED \<Rightarrow> ([RenderPhotoWidgetCall], st, Some (renderPhotoWidget e' fs st))
      | WIDGET_UPDATE \<Rightarrow> ([RenderPhotoWidgetCall], st, Some (renderPhotoWidget e' fs st))
      | WIDGET_RESIZED \<Rightarrow> ([RenderPhotoWidgetCall], st, Some (renderPhotoWidget e' fs st))
      | WIDGET_CLICK \<Rightarrow>
          (if clickAction = ''ROTATE_PHOTO'' then
             (let st' = rotatePhoto e st
              in ([RotatePhotoCall, RenderPhotoWidgetCall], st', Some (renderPhotoWidget e' fs st')))
           else
             (let st' = rotatePhoto e st
              in ([RotatePhotoCall, RenderPhotoWidgetCall], st', Some (renderPhotoWidget e' fs st'))))
      | WIDGET_DELETED \<Rightarrow> ([], st, None)
      | WIDGET_UNKNOWN \<Rightarrow> ([], st, None))"

section \<open>Printing numbers\<close>

text \<open>
  The decimal digits of a number, as template literals print an integer
  (\<^verbatim>\<open>`${n}`\<close>).
\<close>

definition digit_char :: "nat \<Rightarrow> char" where
  "digit_char d = char_of (48 + d)"

function string_of_nat :: "nat \<Rightarrow> string" where
  "string_of_nat n =
     (if n < 10 then [digit_char n] else string_of_nat (n div 10) @ [digit_char (n mod 10)])"
  by pat_completeness auto
termination
  by (relation "measure (\<lambda>n. n)") auto

declare string_of_nat.simps [simp del]

definition js_toString :: "int \<Rightarrow> string" where
  "js_toString i = (if i < 0 then CHR ''-'' # string_of_nat (nat (- i)) else string_of_nat (nat i))"

definition displayMode_string :: "DisplayMode \<Rightarrow> string" where
  "displayMode_string m = (case m of Single \<Rightarrow> ''single'' | Slideshow \<Rightarrow> ''slideshow'')"

section \<open>Picker session collaborators (services/photos-picker-api)\<close>

text \<open>
  Of \<^verbatim>\<open>PickerSession\<close> and \<^verbatim>\<open>MediaItem\<close> only the fields that the workflow reads are kept.
  \<open>mediaFile_baseUrl\<close> is \<^verbatim>\<open>p.mediaFile?.baseUrl\<close>: \<open>None\<close> when \<^verbatim>\<open>mediaFile\<close> or its
  \<^verbatim>\<open>baseUrl\<close> is absent.
\<close>

record PickerSession =
  session_id :: string
  pickerUri :: string
  mediaItemsSet :: bool

record MediaItem =
  item_id :: string
  item_baseUrl :: "string option"
  mediaFile_baseUrl :: "string option"

text \<open>
  One pass through the \<^verbatim>\<open>try\<close> body of the download loop: the directory check or the
  token fetch throws before \<^verbatim>\<open>downloadAsync\<close> is called, or \<^verbatim>\<open>downloadAsync\<close> throws, or
  it returns with an HTTP status.
\<close>

datatype download_outcome = PrepareThrows | DownloadThrows | DownloadStatus nat

text \<open>
  The simulated collaborators of one run of the workflow. \<open>sessionStatus n\<close> is the
  outcome of the call of \<^verbatim>\<open>getPickerSession\<close> made after \<open>n\<close> unready attempts,
  \<open>download i\<close> the outcome of loop iteration \<open>i\<close>; \<open>mediaItems\<close> is the outcome of
  \<^verbatim>\<open>fetchPickerMediaItems\<close> (the response's \<^verbatim>\<open>mediaItems\<close> may be absent);
  \<open>deleteSession\<close> is what \<^verbatim>\<open>deletePickerSession\<close> throws, if anything.
\<close>

record picker_env =
  storage :: io
  cacheDirectory :: string
  createSession :: "thrown + PickerSession"
  openBrowser :: "thrown option"
  sessionStatus :: "nat \<Rightarrow> thrown + PickerSession"
  mediaItems :: "thrown + MediaItem list option"
  download :: "nat \<Rightarrow> download_outcome"
  deleteSession :: "thrown option"

section \<open>Photo picker screen (the acquisition workflow)\<close>

datatype PickerState =
    Idle | CreatingSession | PickerOpen | Polling | FetchingPhotos
  | Downloading | Saving | Done | ErrorState

text \<open>
  Everything the workflow does that can be observed, in order: calls of collaborators,
  and the state and error message it sets.
\<close>

datatype event =
    CreatePickerSession
  | OpenBrowser string
  | GetPickerSession string
  | Sleep nat
  | FetchPickerMediaItems string
  | SetDownloadProgress nat nat
  | DownloadAsync string string
  | SaveWidgetPhotos "WidgetPhoto list" DisplayMode
  | RequestWidgetUpdate
  | DeletePickerSession string
  | SetState PickerState
  | SetError string
  | Alert string string

text \<open>
  The screen's React state (\<open>selectedDisplayMode\<close> is its \<^verbatim>\<open>displayMode\<close>), the stored
  widget record, and the events so far.
\<close>

record picker_screen =
  state :: PickerState
  sessionId :: "string option"
  selectedPhotos :: "MediaItem list"
  error :: "string option"
  downloadProgress :: "nat \<times> nat"
  selectedDisplayMode :: DisplayMode
  stored :: widget_store
  events :: "event list"

definition emit :: "event \<Rightarrow> picker_screen \<Rightarrow> picker_screen" where
  "emit ev w = w\<lparr>events := events w @ [ev]\<rparr>"

definition setState :: "PickerState \<Rightarrow> picker_screen \<Rightarrow> picker_screen" where
  "setState s w = emit (SetState s) (w\<lparr>state := s\<rparr>)"

definition setError :: "string \<Rightarrow> picker_screen \<Rightarrow> picker_screen" where
  "setError m w = emit (SetError m) (w\<lparr>error := Some m\<rparr>)"

text \<open>\<^verbatim>\<open>err instanceof Error ? err.message : fallback\<close>\<close>

definition message_or :: "thrown \<Rightarrow> string \<Rightarrow> string" where
  "message_or err fallback = (case err of Error m \<Rightarrow> m | NonError \<Rightarrow> fallback)"

definition maxAttempts :: nat where
  "maxAttempts = 60"

text \<open>The per-item values computed at the head of the download loop's body.\<close>

definition baseUrl_of :: "MediaItem \<Rightarrow> string" where
  "baseUrl_of p = or_string (mediaFile_baseUrl p) (or_string (item_baseUrl p) [])"

definition photoUrl_of :: "MediaItem \<Rightarrow> string" where
  "photoUrl_of p = (if baseUrl_of p \<noteq> [] then baseUrl_of p @ ''=w512-h512-c'' else [])"

definition localPath_of :: "picker_env \<Rightarrow> MediaItem \<Rightarrow> string" where
  "localPath_of env p = cacheDirectory env @ ''widget-photos/'' @ item_id p @ ''.jpg''"

definition widgetPhoto_of :: "picker_env \<Rightarrow> MediaItem \<Rightarrow> WidgetPhoto" where
  "widgetPhoto_of env p =
     \<lparr>photo_id = item_id p, url = localPath_of env p, localPath = Some (localPath_of env p),
      baseUrl = Some (baseUrl_of p), width = 512, height = 512\<rparr>"

text \<open>
  The \<^verbatim>\<open>for\<close> loop of \<^verbatim>\<open>fetchSelectedPhotos\<close>, from index \<open>i\<close> on the remaining items:
  every exception in the body is caught and logged, and a photo is pushed only when
  the download returned status 200.
\<close>

fun download_loop ::
  "picker_env \<Rightarrow> nat \<Rightarrow> nat \<Rightarrow> MediaItem list \<Rightarrow> WidgetPhoto list \<Rightarrow> picker_screen
     \<Rightarrow> WidgetPhoto list \<times> picker_screen" where
  "download_loop env tot i [] widgetPhotos w = (widgetPhotos, w)"
| "download_loop env tot i (p # rest) widgetPhotos w =
     (case download env i of
        PrepareThrows \<Rightarrow>
          download_loop env tot (i + 1) rest widgetPhotos
            (emit (SetDownloadProgress (i + 1) tot) (w\<lparr>downloadProgress := (i + 1, tot)\<rparr>))
      | DownloadThrows \<Rightarrow>
          download_loop env tot (i + 1) rest widgetPhotos
            (emit (DownloadAsync (photoUrl_of p) (localPath_of env p))
              (emit (SetDownloadProgress (i + 1) tot) (w\<lparr>downloadProgress := (i + 1, tot)\<rparr>)))
      | DownloadStatus status \<Rightarrow>
          download_loop env tot (i + 1) rest
            (if status = 200 then widgetPhotos @ [widgetPhoto_of env p] else widgetPhotos)
            (emit (DownloadAsync (photoUrl_of p) (localPath_of env p))
              (emit (SetDownloadProgress (i + 1) tot) (w\<lparr>downloadProgress := (i + 1, tot)\<rparr>))))"

text \<open>
  Two notions for stating what the loop does. \<open>attempt_events\<close> are the events of one
  pass through the loop body for the item at position \<open>i\<close>: the progress update, and the
  call of \<^verbatim>\<open>downloadAsync\<close> unless the steps before it threw. \<open>downloaded\<close> are the items
  whose download returned status 200, in their original order.
\<close>

definition attempt_events :: "picker_env \<Rightarrow> nat \<Rightarrow> nat \<Rightarrow> MediaItem \<Rightarrow> event list" where
  "attempt_events env tot i p =
     SetDownloadProgress (i + 1) tot #
       (case download env i of
          PrepareThrows \<Rightarrow> []
        | DownloadThrows \<Rightarrow> [DownloadAsync (photoUrl_of p) (localPath_of env p)]
        | DownloadStatus status \<Rightarrow> [DownloadAsync (photoUrl_of p) (localPath_of env p)])"

definition downloaded:: "picker_env \<Rightarrow> MediaItem list \<Rightarrow> MediaItem list" where
  "downloaded env items =
     map snd (filter (\<lambda>(i, p). download env i = DownloadStatus 200) (enumerate 0 items))"

text \<open>
  The \<^verbatim>\<open>try\<close> body of \<^verbatim>\<open>fetchSelectedPhotos\<close>: \<open>Inl (err, w)\<close> when \<open>err\<close> is thrown with
  the screen as \<open>w\<close>, \<open>Inr w\<close> when the body runs to its end. The calls that can throw
  out of the body are \<^verbatim>\<open>fetchPickerMediaItems\<close>, \<^verbatim>\<open>saveWidgetPhotos\<close> and
  \<^verbatim>\<open>deletePickerSession\<close>.
\<close>

definition deleteStep :: "picker_env \<Rightarrow> string \<Rightarrow> picker_screen \<Rightarrow> (thrown \<times> picker_screen) + picker_screen" where
  "deleteStep env sessId w =
     (case deleteSession env of
        Some err \<Rightarrow> Inl (err, emit (DeletePickerSession sessId) w)
      | None \<Rightarrow> Inr (emit (DeletePickerSession sessId) w))"

definition saveStep ::
  "picker_env \<Rightarrow> WidgetPhoto list \<Rightarrow> picker_screen \<Rightarrow> (thrown \<times> picker_screen) + picker_screen" where
  "saveStep env widgetPhotos w =
     (case saveWidgetPhotos (storage env) widgetPhotos (selectedDisplayMode w) None (stored w) of
        Inl err \<Rightarrow>
          Inl (err, emit (SaveWidgetPhotos widgetPhotos (selectedDisplayMode w)) (setState Saving w))
      | Inr st' \<Rightarrow>
          Inr (emit (Alert ''Photos Selected!''
                      (string_of_nat (length widgetPhotos) @ '' photo''
                         @ (if length widgetPhotos > 1 then ''s'' else [])
                         @ '' saved for your widget in ''
                         @ displayMode_string (selectedDisplayMode w) @ '' mode.''))
                (setState Done
                  ((if os (storage env) = Android then emit RequestWidgetUpdate else (\<lambda>x. x))
                    ((emit (SaveWidgetPhotos widgetPhotos (selectedDisplayMode w))
                       (setState Saving w))\<lparr>stored := st'\<rparr>)))))"

definition fetchSelectedPhotos_body ::
  "picker_env \<Rightarrow> string \<Rightarrow> picker_screen \<Rightarrow> (thrown \<times> picker_screen) + picker_screen" where
  "fetchSelectedPhotos_body env sessId w =
     (case mediaItems env of
        Inl err \<Rightarrow> Inl (err, emit (FetchPickerMediaItems sessId) (setState FetchingPhotos w))
      | Inr response \<Rightarrow>
          (let photos = (case response of None \<Rightarrow> [] | Some items \<Rightarrow> items);
               w1 = (emit (FetchPickerMediaItems sessId) (setState FetchingPhotos w))
                      \<lparr>selectedPhotos := photos\<rparr>
           in if length photos > 0 then
                (case download_loop env (length photos) 0 photos []
                        ((setState Downloading w1)\<lparr>downloadProgress := (0, length photos)\<rparr>) of
                   (widgetPhotos, w2) \<Rightarrow>
                     if length widgetPhotos > 0 then
                       (case saveStep env widgetPhotos w2 of
                          Inl thrown_at \<Rightarrow> Inl thrown_at
                        | Inr w3 \<Rightarrow> deleteStep env sessId w3)
                     else deleteStep env sessId
                            (setState ErrorState (setError ''Failed to download photos'' w2)))
              else deleteStep env sessId
                     (setState ErrorState (setError ''No photos were selected'' w1))))"

text \<open>\<^verbatim>\<open>fetchSelectedPhotos\<close>: the body, and the \<^verbatim>\<open>catch\<close> block for whatever it throws.\<close>

definition fetchSelectedPhotos :: "picker_env \<Rightarrow> string \<Rightarrow> picker_screen \<Rightarrow> picker_screen" where
  "fetchSelectedPhotos env sessId w =
     (case fetchSelectedPhotos_body env sessId w of
        Inl (err, w') \<Rightarrow>
          setState ErrorState (setError (message_or err ''Failed to fetch selected photos'') w')
      | Inr w' \<Rightarrow> w')"

text \<open>
  The code after the \<^verbatim>\<open>while\<close> loop of \<^verbatim>\<open>pollForSelection\<close> ("Timeout or error"): what
  \<^verbatim>\<open>deletePickerSession\<close> throws is swallowed.
\<close>

definition poll_failed :: "picker_env \<Rightarrow> string \<Rightarrow> picker_screen \<Rightarrow> picker_screen" where
  "poll_failed env sessId w =
     (if sessId \<noteq> [] then
        emit (DeletePickerSession sessId)
          (setState ErrorState (setError ''No photos were selected or the session timed out'' w))
      else setState ErrorState (setError ''No photos were selected or the session timed out'' w))"

text \<open>
  The \<^verbatim>\<open>while (attempts < maxAttempts)\<close> loop of \<^verbatim>\<open>pollForSelection\<close>, entered with the
  counter at \<open>attempts\<close>. An exception of \<^verbatim>\<open>getPickerSession\<close> breaks out of the loop;
  \<^verbatim>\<open>fetchSelectedPhotos\<close> catches everything itself, so nothing else can be thrown in
  the \<^verbatim>\<open>try\<close>.
\<close>

function poll_loop :: "picker_env \<Rightarrow> string \<Rightarrow> nat \<Rightarrow> picker_screen \<Rightarrow> picker_screen" where
  "poll_loop env sessId attempts w =
     (if attempts < maxAttempts then
        (case sessionStatus env attempts of
           Inl err \<Rightarrow> poll_failed env sessId (emit (GetPickerSession sessId) w)
         | Inr session \<Rightarrow>
             if mediaItemsSet session then
               fetchSelectedPhotos env sessId (emit (GetPickerSession sessId) w)
             else
               poll_loop env sessId (attempts + 1)
                 (emit (Sleep 5000) (emit (GetPickerSession sessId) w)))
      else poll_failed env sessId w)"
  by pat_completeness auto
termination
  by (relation "measure (\<lambda>(env, sessId, attempts, w). maxAttempts - attempts)") auto

declare poll_loop.simps [simp del]

definition pollForSelection :: "picker_env \<Rightarrow> string \<Rightarrow> picker_screen \<Rightarrow> picker_screen" where
  "pollForSelection env sessId w = poll_loop env sessId 0 w"

text \<open>\<^verbatim>\<open>startPicker\<close>: its \<^verbatim>\<open>catch\<close> block sets the error state and does nothing else.\<close>

definition startPicker :: "picker_env \<Rightarrow> picker_screen \<Rightarrow> picker_screen" where
  "startPicker env w =
     (case createSession env of
        Inl err \<Rightarrow>
          setState ErrorState
            (setError (message_or err ''Failed to open photo picker'')
              (emit CreatePickerSession (setState CreatingSession w)))
      | Inr session \<Rightarrow>
          (case openBrowser env of
             Some err \<Rightarrow>
               setState ErrorState
                 (setError (message_or err ''Failed to open photo picker'')
                   (emit (OpenBrowser (pickerUri session))
                     (setState PickerOpen
                       ((emit CreatePickerSession (setState CreatingSession w))
                          \<lparr>sessionId := Some (session_id session)\<rparr>))))
           | None \<Rightarrow>
               pollForSelection env (session_id session)
                 (setState Polling
                   (emit (OpenBrowser (pickerUri session))
                     (setState PickerOpen
                       ((emit CreatePickerSession (setState CreatingSession w))
                          \<lparr>sessionId := Some (session_id session)\<rparr>))))))"

section \<open>The service's own flow (services/photos-picker-api)\<close>

text \<open>
  \<^verbatim>\<open>waitForPhotoSelection\<close>: the same loop without a screen; it returns whether a
  selection was seen, here with the events it made appended to \<open>evs\<close>.
\<close>

function wait_loop :: "picker_env \<Rightarrow> string \<Rightarrow> nat \<Rightarrow> event list \<Rightarrow> bool \<times> event list" where
  "wait_loop env sessId attempts evs =
     (if attempts < maxAttempts then
        (case sessionStatus env attempts of
           Inl err \<Rightarrow> (False, evs @ [GetPickerSession sessId])
         | Inr session \<Rightarrow>
             if mediaItemsSet session then (True, evs @ [GetPickerSession sessId])
             else wait_loop env sessId (attempts + 1)
                    (evs @ [GetPickerSession sessId, Sleep 5000]))
      else (False, evs))"
  by pat_completeness auto
termination
  by (relation "measure (\<lambda>(env, sessId, attempts, evs). maxAttempts - attempts)") auto

declare wait_loop.simps [simp del]

definition waitForPhotoSelection :: "picker_env \<Rightarrow> string \<Rightarrow> bool \<times> event list" where
  "waitForPhotoSelection env sessId = wait_loop env sessId 0 []"

text \<open>
  \<^verbatim>\<open>pickPhotos\<close> with \<^verbatim>\<open>openPhotoPicker\<close> inlined: the result or the exception that
  escapes, and the events made.
\<close>

definition pickPhotos :: "picker_env \<Rightarrow> (thrown + MediaItem list) \<times> event list" where
  "pickPhotos env =
     (case createSession env of
        Inl err \<Rightarrow> (Inl err, [CreatePickerSession])
      | Inr session \<Rightarrow>
          (case openBrowser env of
             Some err \<Rightarrow> (Inl err, [CreatePickerSession, OpenBrowser (pickerUri session)])
           | None \<Rightarrow>
               if session_id session = [] then
                 (Inl (Error ''Failed to create picker session''),
                  [CreatePickerSession, OpenBrowser (pickerUri session)])
               else
                 (case wait_loop env (session_id session) 0
                         [CreatePickerSession, OpenBrowser (pickerUri session), Sleep 2000] of
                    (hasSelection, evs) \<Rightarrow>
                      if \<not> hasSelection then
                        (case deleteSession env of
                           Some err \<Rightarrow> (Inl err, evs @ [DeletePickerSession (session_id session)])
                         | None \<Rightarrow> (Inr [], evs @ [DeletePickerSession (session_id session)]))
                      else
                        (case mediaItems env of
                           Inl err \<Rightarrow> (Inl err, evs @ [FetchPickerMediaItems (session_id session)])
                         | Inr response \<Rightarrow>
                             (case deleteSession env of
                                Some err \<Rightarrow>
                                  (Inl err,
                                   evs @ [FetchPickerMediaItems (session_id session),
                                          DeletePickerSession (session_id session)])
                              | None \<Rightarrow>
                                  (Inr (case response of None \<Rightarrow> [] | Some items \<Rightarrow> items),
                                   evs @ [FetchPickerMediaItems (session_id session),
                                          DeletePickerSession (session_id session)]))))))"

section \<open>Photos tab: adding local photos\<close>

record ImageAsset =
  uri :: string
  asset_width :: int
  asset_height :: int

text \<open>
  The collaborators of \<^verbatim>\<open>handleAddLocalPhotos\<close>: the permission request (its status
  string, or what it throws), the image library (\<open>None\<close> when the user cancelled),
  whether the \<^verbatim>\<open>try\<close> body of the copy loop throws for the asset at a position, and
  \<^verbatim>\<open>Date.now()\<close> as read at that position.
\<close>

record photos_env =
  tab_storage :: io
  tab_cacheDirectory :: string
  permissionStatus :: "thrown + string"
  launchResult :: "thrown + ImageAsset list option"
  copy_throws :: "nat \<Rightarrow> bool"
  asset_now :: "nat \<Rightarrow> int"

text \<open>The tab's React state \<^verbatim>\<open>widgetData\<close>, the stored record, and the events so far.\<close>

record photos_screen =
  widgetData :: "WidgetData option"
  tab_stored :: widget_store
  tab_events :: "event list"

text \<open>\<^verbatim>\<open>uri.split("/").pop()\<close>: what follows the last slash (the whole string without one).\<close>

definition last_segment :: "string \<Rightarrow> string" where
  "last_segment s = rev (takeWhile (\<lambda>c. c \<noteq> CHR ''/'') (rev s))"

definition fileName_of :: "photos_env \<Rightarrow> nat \<Rightarrow> ImageAsset \<Rightarrow> string" where
  "fileName_of env i asset =
     (if last_segment (uri asset) = [] then ''photo_'' @ js_toString (asset_now env i) @ ''.jpg''
      else last_segment (uri asset))"

text \<open>\<^verbatim>\<open>n || 512\<close> on a number: zero is falsy.\<close>

definition or_512 :: "int \<Rightarrow> int" where
  "or_512 n = (if n = 0 then 512 else n)"

definition localPhoto_of :: "photos_env \<Rightarrow> nat \<Rightarrow> ImageAsset \<Rightarrow> WidgetPhoto" where
  "localPhoto_of env i asset =
     \<lparr>photo_id = fileName_of env i asset,
      url = tab_cacheDirectory env @ ''widget-photos/'' @ fileName_of env i asset,
      localPath = Some (tab_cacheDirectory env @ ''widget-photos/'' @ fileName_of env i asset),
      baseUrl = None,
      width = or_512 (asset_width asset), height = or_512 (asset_height asset)\<rparr>"

text \<open>The \<^verbatim>\<open>for (const asset of result.assets)\<close> loop: an asset whose copy throws is skipped.\<close>

fun copy_loop :: "photos_env \<Rightarrow> nat \<Rightarrow> ImageAsset list \<Rightarrow> WidgetPhoto list \<Rightarrow> WidgetPhoto list" where
  "copy_loop env i [] newPhotos = newPhotos"
| "copy_loop env i (asset # rest) newPhotos =
     (if copy_throws env i then copy_loop env (i + 1) rest newPhotos
      else copy_loop env (i + 1) rest (newPhotos @ [localPhoto_of env i asset]))"

text \<open>\<^verbatim>\<open>loadWidgetData\<close> of the tab: refreshes the React state from storage on Android.\<close>

definition loadWidgetData :: "photos_env \<Rightarrow> photos_screen \<Rightarrow> photos_screen" where
  "loadWidgetData env w =
     (if os (tab_storage env) \<noteq> Android then w
      else w\<lparr>widgetData := getWidgetData (tab_storage env) (tab_stored w)\<rparr>)"

definition tab_emit :: "event \<Rightarrow> photos_screen \<Rightarrow> photos_screen" where
  "tab_emit ev w = w\<lparr>tab_events := tab_events w @ [ev]\<rparr>"

text \<open>
  \<^verbatim>\<open>handleAddLocalPhotos\<close>: the existing photos are those of the React state; the new
  ones are appended with a spread, \<^verbatim>\<open>[...existingPhotos, ...newPhotos]\<close>. Every exception
  ends in the alert of the \<^verbatim>\<open>catch\<close> block.
\<close>

definition handleAddLocalPhotos :: "photos_env \<Rightarrow> photos_screen \<Rightarrow> photos_screen" where
  "handleAddLocalPhotos env w =
     (case permissionStatus env of
        Inl err \<Rightarrow> tab_emit (Alert ''Error'' ''Failed to add photos'') w
      | Inr status \<Rightarrow>
          if status \<noteq> ''granted'' then
            tab_emit (Alert ''Permission Required'' ''Please grant access to your photo library.'') w
          else
            (case launchResult env of
               Inl err \<Rightarrow> tab_emit (Alert ''Error'' ''Failed to add photos'') w
             | Inr None \<Rightarrow> w
             | Inr (Some assets) \<Rightarrow>
                 if length assets = 0 then w
                 else
                   (let newPhotos = copy_loop env 0 assets []
                    in if length newPhotos > 0 then
                         (let existingPhotos = (case widgetData w of None \<Rightarrow> [] | Some d \<Rightarrow> photos d);
                              allPhotos = existingPhotos @ newPhotos;
                              mode = (if length allPhotos > 1 then Slideshow else Single)
                          in case saveWidgetPhotos (tab_storage env) allPhotos mode None (tab_stored w) of
                               Inl err \<Rightarrow>
                                 tab_emit (Alert ''Error'' ''Failed to add photos'')
                                   (tab_emit (SaveWidgetPhotos allPhotos mode) w)
                             | Inr st' \<Rightarrow>
                                 tab_emit (Alert ''Success''
                                            (''Added '' @ string_of_nat (length newPhotos) @ '' photo''
                                               @ (if length newPhotos > 1 then ''s'' else []) @ ''!''))
                                   (loadWidgetData env
                                     (tab_emit RequestWidgetUpdate
                                       ((tab_emit (SaveWidgetPhotos allPhotos mode) w)
                                          \<lparr>tab_stored := st'\<rparr>))))
                       else w)))"

section \<open>Settings screen: the rotation interval\<close>

datatype settings_event =
    UpdateRotationInterval int
  | RegisterBackgroundFetch int
  | NativeStopRotationService
  | NativeStartRotationService int
  | SettingsAlert string string

text \<open>
  What the screen sees of the outside: the platform, whether the native rotation
  module exists, what its stop and start calls throw, if anything, and JavaScript's
  built-in \<^verbatim>\<open>parseInt(s, 10)\<close>. The built-in is not code of the repository, so it is a
  parameter: \<open>parseInt env s\<close> is the number it returns for \<open>s\<close>, \<open>None\<close> when it returns
  \<^verbatim>\<open>NaN\<close>. Nothing is assumed about which characters it skips or how it rounds large
  values.
\<close>

record settings_env =
  settings_os :: platform
  nativeModule :: bool
  stopService_error :: "thrown option"
  startService_error :: "thrown option"
  parseInt :: "string \<Rightarrow> int option"

record settings_screen =
  rotationInterval :: int
  backgroundFetchEnabled :: bool
  foregroundServiceEnabled :: bool
  showCustomModal :: bool
  customIntervalInput :: string
  settings_stored :: WidgetData
  settings_events :: "settings_event list"

text \<open>
  Modelled from the spec: \<^verbatim>\<open>updateRotationInterval\<close> of the widget-storage service is
  imported by the settings screen but is not among the sources. The specification's
  \<^verbatim>\<open>setInterval\<close> "updates \<^verbatim>\<open>rotationIntervalSeconds\<close> only". The stored record is taken as
  present and the write as successful; the specification does not say what the
  operation does when nothing is stored.
\<close>

definition updateRotationInterval :: "int \<Rightarrow> WidgetData \<Rightarrow> WidgetData" where
  "updateRotationInterval seconds d = d\<lparr>rotationIntervalSeconds := Some seconds\<rparr>"

definition settings_emit :: "settings_event \<Rightarrow> settings_screen \<Rightarrow> settings_screen" where
  "settings_emit ev w = w\<lparr>settings_events := settings_events w @ [ev]\<rparr>"

text \<open>
  \<^verbatim>\<open>stopRotationService\<close> and \<^verbatim>\<open>startRotationService\<close> (services/foreground-rotation):
  off Android or without the native module they return \<^verbatim>\<open>false\<close>; an exception of the
  native call is rethrown. The start enforces \<^verbatim>\<open>Math.max(10, intervalSeconds)\<close>.
\<close>

definition stopRotationService ::
  "settings_env \<Rightarrow> settings_screen \<Rightarrow> (thrown \<times> settings_screen) + settings_screen" where
  "stopRotationService env w =
     (if settings_os env \<noteq> Android then Inr w
      else if \<not> nativeModule env then Inr w
      else case stopService_error env of
             Some err \<Rightarrow> Inl (err, settings_emit NativeStopRotationService w)
           | None \<Rightarrow> Inr (settings_emit NativeStopRotationService w))"

definition startRotationService ::
  "settings_env \<Rightarrow> int \<Rightarrow> settings_screen \<Rightarrow> (thrown \<times> settings_screen) + settings_screen" where
  "startRotationService env intervalSeconds w =
     (if settings_os env \<noteq> Android then Inr w
      else if \<not> nativeModule env then Inr w
      else case startService_error env of
             Some err \<Rightarrow> Inl (err, settings_emit (NativeStartRotationService (max 10 intervalSeconds)) w)
           | None \<Rightarrow> Inr (settings_emit (NativeStartRotationService (max 10 intervalSeconds)) w))"

text \<open>
  \<^verbatim>\<open>handleIntervalChange\<close>: \<^verbatim>\<open>registerBackgroundFetch\<close> catches its own exceptions, so only
  the restart of the foreground service can throw.
\<close>

definition handleIntervalChange ::
  "settings_env \<Rightarrow> int \<Rightarrow> settings_screen \<Rightarrow> (thrown \<times> settings_screen) + settings_screen" where
  "handleIntervalChange env seconds w =
     (let w1 = settings_emit (UpdateRotationInterval seconds)
                 (w\<lparr>rotationInterval := seconds,
                    settings_stored := updateRotationInterval seconds (settings_stored w)\<rparr>);
          w2 = (if backgroundFetchEnabled w then settings_emit (RegisterBackgroundFetch seconds) w1
                else w1)
      in if foregroundServiceEnabled w then
           (case stopRotationService env w2 of
              Inl thrown_at \<Rightarrow> Inl thrown_at
            | Inr w3 \<Rightarrow> startRotationService env seconds w3)
         else Inr w2)"

text \<open>
  \<^verbatim>\<open>handleCustomIntervalSubmit\<close>: \<^verbatim>\<open>NaN >= 5\<close> is false, so an input without a number
  takes the \<^verbatim>\<open>else\<close> branch.
\<close>

definition handleCustomIntervalSubmit ::
  "settings_env \<Rightarrow> settings_screen \<Rightarrow> (thrown \<times> settings_screen) + settings_screen" where
  "handleCustomIntervalSubmit env w =
     (case parseInt env (if customIntervalInput w = [] then ''30'' else customIntervalInput w) of
        None \<Rightarrow>
          Inr (settings_emit (SettingsAlert ''Invalid'' ''Interval must be at least 5 seconds'') w)
      | Some seconds \<Rightarrow>
          if seconds \<ge> 5 then
            (case handleIntervalChange env seconds w of
               Inl thrown_at \<Rightarrow> Inl thrown_at
             | Inr w' \<Rightarrow>
                 if seconds < 900 \<and> \<not> foregroundServiceEnabled w then
                   Inr (settings_emit
                          (SettingsAlert ''Enable Reliable Rotation''
                             (''For intervals under 15 min, enable '' @ [CHR 0x22] @ ''Reliable Rotation''
                               @ [CHR 0x22] @ '' in settings for guaranteed timing. ''
                               @ ''Background rotation may be delayed by Android.''))
                          (w'\<lparr>showCustomModal := False\<rparr>))
                 else Inr (w'\<lparr>showCustomModal := False\<rparr>))
          else
            Inr (settings_emit (SettingsAlert ''Invalid'' ''Interval must be at least 5 seconds'') w))"

text \<open>The screen a handler leaves behind, whether it returned or threw.\<close>

definition screen_after :: "(thrown \<times> settings_screen) + settings_screen \<Rightarrow> settings_screen" where
  "screen_after r = (case r of Inl (t, w') \<Rightarrow> w' | Inr w' \<Rightarrow> w')"

section \<open>Example inputs\<close>

text \<open>Concrete records and collaborators on which the theorems below are evaluated.\<close>

definition io_android :: "int \<Rightarrow> io" where
  "io_android t = \<lparr>os = Android, now = t, read_fails = False, write_error = None\<rparr>"

definition example_photo :: "string \<Rightarrow> WidgetPhoto" where
  "example_photo name =
     \<lparr>photo_id = name, url = ''/cache/widget-photos/'' @ name,
      localPath = Some (''/cache/widget-photos/'' @ name), baseUrl = None,
      width = 512, height = 512\<rparr>"

definition example_data :: "WidgetPhoto list \<Rightarrow> DisplayMode \<Rightarrow> WidgetData" where
  "example_data ps m =
     \<lparr>photos = ps, currentIndex = 0, displayMode = m, lastUpdated = 1000,
      albumId = None, rotationIntervalSeconds = None\<rparr>"


definition three_photos :: WidgetData where
  "three_photos =
     (example_data [example_photo ''a.jpg'', example_photo ''b.jpg'', example_photo ''c.jpg'']
        Slideshow)\<lparr>currentIndex := 1\<rparr>"


definition one_photo :: WidgetData where
  "one_photo = example_data [example_photo ''a.jpg''] Slideshow"

definition two_photos_single :: WidgetData where
  "two_photos_single = example_data [example_photo ''a.jpg'', example_photo ''b.jpg''] Single"

definition out_of_range_data :: WidgetData where
  "out_of_range_data =
     (example_data [example_photo ''a.jpg'', example_photo ''b.jpg''] Slideshow)
       \<lparr>currentIndex := 7\<rparr>"

definition example_fs :: "string \<Rightarrow> string option" where
  "example_fs path = (if path = ''/cache/widget-photos/a.jpg'' then Some ''QUJD'' else None)"

definition two_photos_slideshow :: WidgetData where
  "two_photos_slideshow = example_data [example_photo ''a.jpg'', example_photo ''b.jpg''] Slideshow"

definition tab_env :: photos_env where
  "tab_env =
     \<lparr>tab_storage = io_android 2000, tab_cacheDirectory = ''/cache/'',
      permissionStatus = Inr ''granted'',
      launchResult =
        Inr (Some [\<lparr>uri = ''file:///picked/a.jpg'', asset_width = 800, asset_height = 600\<rparr>]),
      copy_throws = (\<lambda>i. False), asset_now = (\<lambda>i. 2000)\<rparr>"

definition tab_screen :: photos_screen where
  "tab_screen =
     \<lparr>widgetData = Some one_photo, tab_stored = Some one_photo, tab_events = []\<rparr>"

definition picked_asset :: ImageAsset where
  "picked_asset = \<lparr>uri = ''file:///picked/a.jpg'', asset_width = 800, asset_height = 600\<rparr>"

text \<open>
  What \<^verbatim>\<open>parseInt\<close> returns on the inputs of the examples (\<^verbatim>\<open>"3"\<close>, \<^verbatim>\<open>"5"\<close>, \<^verbatim>\<open>"30"\<close>); the
  examples evaluate it on no other input.
\<close>

definition example_parseInt :: "string \<Rightarrow> int option" where
  "example_parseInt s =
     (if s = ''3'' then Some 3 else if s = ''5'' then Some 5
      else if s = ''30'' then Some 30 else None)"

definition settings_env_example :: settings_env where
  "settings_env_example =
     \<lparr>settings_os = Android, nativeModule = True, stopService_error = None,
      startService_error = None, parseInt = example_parseInt\<rparr>"

definition settings_example :: "string \<Rightarrow> settings_screen" where
  "settings_example input =
     \<lparr>rotationInterval = 1800, backgroundFetchEnabled = True, foregroundServiceEnabled = True,
      showCustomModal = True, customIntervalInput = input,
      settings_stored = two_photos_slideshow\<lparr>rotationIntervalSeconds := Some 1800\<rparr>,
      settings_events = []\<rparr>"

definition example_session :: "string \<Rightarrow> bool \<Rightarrow> PickerSession" where
  "example_session s ready =
     \<lparr>session_id = s, pickerUri = ''https://photos.example/picker/'' @ s, mediaItemsSet = ready\<rparr>"

definition never_ready_env :: picker_env where
  "never_ready_env =
     \<lparr>storage = io_android 2000, cacheDirectory = ''/cache/'',
      createSession = Inr (example_session ''s1'' False), openBrowser = None,
      sessionStatus = (\<lambda>n. Inr (example_session ''s1'' False)),
      mediaItems = Inr (Some []), download = (\<lambda>i. DownloadStatus 200), deleteSession = None\<rparr>"

definition transport_failure_env :: picker_env where
  "transport_failure_env =
     never_ready_env\<lparr>sessionStatus := (\<lambda>n. Inl (Error ''Failed to get picker session: 503''))\<rparr>"

definition ready_at_env :: "nat \<Rightarrow> picker_env" where
  "ready_at_env k = never_ready_env\<lparr>sessionStatus := (\<lambda>n. Inr (example_session ''s1'' (n + 1 = k)))\<rparr>"

definition fetch_failure_env :: picker_env where
  "fetch_failure_env =
     (ready_at_env 1)\<lparr>mediaItems := Inl (Error ''Failed to fetch picker media items: 500'')\<rparr>"

definition initial_screen :: picker_screen where
  "initial_screen =
     \<lparr>state = Idle, sessionId = None, selectedPhotos = [], error = None, downloadProgress = (0, 0),
      selectedDisplayMode = Slideshow, stored = Some one_photo, events = []\<rparr>"

definition example_item :: "string \<Rightarrow> MediaItem" where
  "example_item name =
     \<lparr>item_id = name, item_baseUrl = None,
      mediaFile_baseUrl = Some (''https://lh3.example/'' @ name)\<rparr>"

definition five_items :: "MediaItem list" where
  "five_items = map example_item [''p1'', ''p2'', ''p3'', ''p4'', ''p5'']"

definition third_fails_env :: picker_env where
  "third_fails_env =
     (ready_at_env 1)\<lparr>mediaItems := Inr (Some five_items),
                       download := (\<lambda>i. if i = 2 then DownloadThrows else DownloadStatus 200)\<rparr>"

definition all_fail_env :: picker_env where
  "all_fail_env =
     (ready_at_env 1)\<lparr>mediaItems := Inr (Some five_items), download := (\<lambda>i. DownloadThrows)\<rparr>"

definition all_fail_delete_throws_env :: picker_env where
  "all_fail_delete_throws_env =
     all_fail_env\<lparr>deleteSession := Some (Error ''Network request failed'')\<rparr>"

section \<open>Rotation: the cyclic property\<close>

lemma js_rem_nonneg: "0 \<le> a \<Longrightarrow> 0 < b \<Longrightarrow> js_rem a b = a mod b"
  by (simp add: js_rem_def sgn_if)

lemma rotateToNextPhoto_step:
  assumes "os e = Android" "\<not> read_fails e" "write_error e = None" "photos d \<noteq> []"
  shows "rotateToNextPhoto e (Some d) =
           Inr (Some (d\<lparr>currentIndex := js_rem (currentIndex d + 1) (int (length (photos d))),
                         lastUpdated := now e\<rparr>))"
  using assms
  by (simp add: rotateToNextPhoto_def getWidgetData_def updateCurrentPhotoIndex_def saveWidgetData_def)

lemma rotateToNextPhoto_seq_index:
  assumes "\<forall>e\<in>set es. os e = Android \<and> \<not> read_fails e \<and> write_error e = None"
    and "photos d \<noteq> []" and "0 \<le> currentIndex d"
    and "currentIndex d < int (length (photos d))"
  shows "\<exists>d'. rotateToNextPhoto_seq es (Some d) = Inr (Some d') \<and> photos d' = photos d
           \<and> displayMode d' = displayMode d
           \<and> currentIndex d' = (currentIndex d + int (length es)) mod int (length (photos d))"
  using assms
proof (induction es arbitrary: d)
  case Nil
  then show ?case by simp
next
  case (Cons e es)
  let ?n = "int (length (photos d))"
  let ?d1 = "d\<lparr>currentIndex := js_rem (currentIndex d + 1) ?n, lastUpdated := now e\<rparr>"
  have n: "0 < ?n" using Cons.prems by simp
  have step: "rotateToNextPhoto e (Some d) = Inr (Some ?d1)"
    using Cons.prems by (intro rotateToNextPhoto_step) auto
  have idx: "currentIndex ?d1 = (currentIndex d + 1) mod ?n"
    using Cons.prems n by (simp add: js_rem_nonneg)
  have "\<exists>d'. rotateToNextPhoto_seq es (Some ?d1) = Inr (Some d') \<and> photos d' = photos ?d1
           \<and> displayMode d' = displayMode ?d1
           \<and> currentIndex d' = (currentIndex ?d1 + int (length es)) mod int (length (photos ?d1))"
    using Cons.prems n idx by (intro Cons.IH) auto
  then obtain d' where d': "rotateToNextPhoto_seq es (Some ?d1) = Inr (Some d')"
    "photos d' = photos d" "displayMode d' = displayMode d"
    "currentIndex d' = ((currentIndex d + 1) mod ?n + int (length es)) mod ?n"
    using idx by auto
  have "((currentIndex d + 1) mod ?n + int (length es)) mod ?n
          = (currentIndex d + int (length (e # es))) mod ?n"
    by (simp add: mod_simps algebra_simps)
  with d' step show ?case by simp
qed

lemma rotatePhoto_step:
  assumes "\<not> read_fails e" "write_error e = None" "length (photos d) > 1"
  shows "rotatePhoto e (Some d) =
           Some (d\<lparr>currentIndex := js_rem (currentIndex d + 1) (int (length (photos d))),
                    lastUpdated := now e\<rparr>)"
  using assms by (simp add: rotatePhoto_def widget_getWidgetData_def widget_saveWidgetData_def)

lemma rotatePhoto_short:
  assumes "length (photos d) \<le> 1"
  shows "rotatePhoto e (Some d) = Some d"
  using assms by (simp add: rotatePhoto_def widget_getWidgetData_def)

lemma rotatePhoto_seq_short:
  assumes "length (photos d) \<le> 1"
  shows "rotatePhoto_seq es (Some d) = Some d"
  using assms by (induction es) (simp_all add: rotatePhoto_short)

lemma rotatePhoto_seq_index:
  assumes "\<forall>e\<in>set es. \<not> read_fails e \<and> write_error e = None"
    and "length (photos d) > 1" and "0 \<le> currentIndex d"
    and "currentIndex d < int (length (photos d))"
  shows "\<exists>d'. rotatePhoto_seq es (Some d) = Some d' \<and> photos d' = photos d
           \<and> displayMode d' = displayMode d
           \<and> currentIndex d' = (currentIndex d + int (length es)) mod int (length (photos d))"
  using assms
proof (induction es arbitrary: d)
  case Nil
  then show ?case by simp
next
  case (Cons e es)
  let ?n = "int (length (photos d))"
  let ?d1 = "d\<lparr>currentIndex := js_rem (currentIndex d + 1) ?n, lastUpdated := now e\<rparr>"
  have n: "0 < ?n" using Cons.prems by auto
  have step: "rotatePhoto e (Some d) = Some ?d1"
    using Cons.prems by (intro rotatePhoto_step) auto
  have idx: "currentIndex ?d1 = (currentIndex d + 1) mod ?n"
    using Cons.prems n by (simp add: js_rem_nonneg)
  have "\<exists>d'. rotatePhoto_seq es (Some ?d1) = Some d' \<and> photos d' = photos ?d1
           \<and> displayMode d' = displayMode ?d1
           \<and> currentIndex d' = (currentIndex ?d1 + int (length es)) mod int (length (photos ?d1))"
    using Cons.prems n idx by (intro Cons.IH) auto
  then obtain d' where d': "rotatePhoto_seq es (Some ?d1) = Some d'"
    "photos d' = photos d" "displayMode d' = displayMode d"
    "currentIndex d' = ((currentIndex d + 1) mod ?n + int (length es)) mod ?n"
    using idx by auto
  have "((currentIndex d + 1) mod ?n + int (length es)) mod ?n
          = (currentIndex d + int (length (e # es))) mod ?n"
    by (simp add: mod_simps algebra_simps)
  with d' step show ?case by simp
qed

text \<open>
  Claim C6. For a stored record with a non-empty photos list of length \<open>N\<close> and
  \<open>currentIndex\<close> in \<open>[0, N)\<close>, \<open>N\<close> consecutive advances (each reading and writing the
  record successfully on Android) return \<open>currentIndex\<close> to its original value. This
  holds for \<^verbatim>\<open>rotateToNextPhoto\<close> of the service and for \<^verbatim>\<open>rotatePhoto\<close> of the widget.
\<close>

theorem advance_cycle:
  assumes "photos d \<noteq> []"
    and "0 \<le> currentIndex d" and "currentIndex d < int (length (photos d))"
    and "length es = length (photos d)"
    and "\<forall>e\<in>set es. os e = Android \<and> \<not> read_fails e \<and> write_error e = None"
  shows "(\<exists>d'. rotateToNextPhoto_seq es (Some d) = Inr (Some d')
               \<and> currentIndex d' = currentIndex d \<and> photos d' = photos d)
       \<and> (\<exists>d'. rotatePhoto_seq es (Some d) = Some d'
               \<and> currentIndex d' = currentIndex d \<and> photos d' = photos d)"
proof
  obtain d' where d': "rotateToNextPhoto_seq es (Some d) = Inr (Some d')" "photos d' = photos d"
      "currentIndex d' = (currentIndex d + int (length es)) mod int (length (photos d))"
    using rotateToNextPhoto_seq_index [OF assms(5) assms(1) assms(2) assms(3)] by blast
  have "(currentIndex d + int (length es)) mod int (length (photos d)) = currentIndex d"
    using assms(2,3,4) by simp
  with d' show "\<exists>d'. rotateToNextPhoto_seq es (Some d) = Inr (Some d')
               \<and> currentIndex d' = currentIndex d \<and> photos d' = photos d"
    by auto
next
  show "\<exists>d'. rotatePhoto_seq es (Some d) = Some d'
               \<and> currentIndex d' = currentIndex d \<and> photos d' = photos d"
  proof (cases "length (photos d) \<le> 1")
    case True
    then show ?thesis by (simp add: rotatePhoto_seq_short)
  next
    case False
    then have more: "length (photos d) > 1" by simp
    have ok: "\<forall>e\<in>set es. \<not> read_fails e \<and> write_error e = None"
      using assms(5) by blast
    obtain d' where d': "rotatePhoto_seq es (Some d) = Some d'" "photos d' = photos d"
      "currentIndex d' = (currentIndex d + int (length es)) mod int (length (photos d))"
      using rotatePhoto_seq_index [OF ok more assms(2) assms(3)] by blast
    have "(currentIndex d + int (length es)) mod int (length (photos d)) = currentIndex d"
      using assms(2,3,4) by simp
    with d' show ?thesis by auto
  qed
qed

theorem advance_cycle_witness:
  "(\<exists>d'. rotateToNextPhoto_seq [io_android 2000, io_android 3000, io_android 4000]
            (Some three_photos) = Inr (Some d')
          \<and> currentIndex d' = 1 \<and> photos d' = photos three_photos)
   \<and> (\<exists>d'. rotatePhoto_seq [io_android 2000, io_android 3000, io_android 4000]
            (Some three_photos) = Some d'
          \<and> currentIndex d' = 1 \<and> photos d' = photos three_photos)"
  using advance_cycle [of three_photos "[io_android 2000, io_android 3000, io_android 4000]"]
  by (simp add: three_photos_def example_data_def io_android_def)

section \<open>Rotation: short photo sets\<close>

text \<open>
  Claim C5 as stated fails for \<^verbatim>\<open>rotateToNextPhoto\<close> on one photo: its guard is
  \<^verbatim>\<open>photos.length === 0\<close>, so with one photo it goes on to \<^verbatim>\<open>updateCurrentPhotoIndex\<close>,
  which writes the record with a new \<^verbatim>\<open>lastUpdated\<close>. Here the stored record has
  \<open>lastUpdated = 1000\<close> and the call is made at time 2000.
\<close>

theorem advance_single_photo_counterexample:
  "rotateToNextPhoto (io_android 2000) (Some one_photo)
     = Inr (Some (one_photo\<lparr>lastUpdated := 2000\<rparr>))
   \<and> lastUpdated one_photo = 1000
   \<and> rotateToNextPhoto (io_android 2000) (Some one_photo) \<noteq> Inr (Some one_photo)"
  by (simp add: rotateToNextPhoto_def getWidgetData_def updateCurrentPhotoIndex_def
      saveWidgetData_def io_android_def one_photo_def example_data_def js_rem_def)

text \<open>
  Claim C5, amended. \<^verbatim>\<open>rotateToNextPhoto\<close> writes nothing when no record can be read or
  the photos list is empty. With exactly one photo and \<open>currentIndex = 0\<close> it leaves
  \<open>currentIndex\<close> at 0 and every other field as it was, except that the record is written
  again with \<open>lastUpdated\<close> set to the time of the call. The widget's \<^verbatim>\<open>rotatePhoto\<close> and
  the \<^verbatim>\<open>rotateAndUpdate\<close> trigger write nothing for at most one photo.
\<close>

theorem advance_short_set:
  "(getWidgetData e st = None \<longrightarrow> rotateToNextPhoto e st = Inr st)
   \<and> (photos d = [] \<longrightarrow> rotateToNextPhoto e (Some d) = Inr (Some d))
   \<and> (length (photos d) = 1 \<and> currentIndex d = 0 \<and> os e = Android \<and> \<not> read_fails e
        \<and> write_error e = None
      \<longrightarrow> rotateToNextPhoto e (Some d) = Inr (Some (d\<lparr>lastUpdated := now e\<rparr>)))
   \<and> (length (photos d) \<le> 1
      \<longrightarrow> rotatePhoto e (Some d) = Some d \<and> rotateAndUpdate e (Some d) = (None, [], Some d))
   \<and> rotatePhoto e None = None \<and> rotateAndUpdate e None = (None, [], None)"
proof (intro conjI impI)
  assume "getWidgetData e st = None"
  then show "rotateToNextPhoto e st = Inr st" by (simp add: rotateToNextPhoto_def)
next
  assume "photos d = []"
  then show "rotateToNextPhoto e (Some d) = Inr (Some d)"
    by (auto simp add: rotateToNextPhoto_def getWidgetData_def split: option.splits if_splits)
next
  assume a: "length (photos d) = 1 \<and> currentIndex d = 0 \<and> os e = Android \<and> \<not> read_fails e
        \<and> write_error e = None"
  then have ne: "photos d \<noteq> []" by auto
  have "rotateToNextPhoto e (Some d)
          = Inr (Some (d\<lparr>currentIndex := js_rem (currentIndex d + 1) (int (length (photos d))),
                         lastUpdated := now e\<rparr>))"
    using a ne by (intro rotateToNextPhoto_step) auto
  moreover have "js_rem (currentIndex d + 1) (int (length (photos d))) = currentIndex d"
    using a by (simp add: js_rem_def)
  ultimately show "rotateToNextPhoto e (Some d) = Inr (Some (d\<lparr>lastUpdated := now e\<rparr>))"
    by simp
next
  assume "length (photos d) \<le> 1"
  then show "rotatePhoto e (Some d) = Some d" by (rule rotatePhoto_short)
next
  assume "length (photos d) \<le> 1"
  then show "rotateAndUpdate e (Some d) = (None, [], Some d)"
    by (simp add: rotateAndUpdate_def getWidgetData_def)
next
  show "rotatePhoto e None = None"
    by (simp add: rotatePhoto_def widget_getWidgetData_def)
next
  show "rotateAndUpdate e None = (None, [], None)"
    by (simp add: rotateAndUpdate_def getWidgetData_def)
qed

theorem advance_short_set_witness:
  "rotateToNextPhoto (io_android 2000) None = Inr None
   \<and> rotateToNextPhoto (io_android 2000) (Some (example_data [] Single))
       = Inr (Some (example_data [] Single))
   \<and> rotateToNextPhoto (io_android 2000) (Some one_photo)
       = Inr (Some (one_photo\<lparr>lastUpdated := 2000\<rparr>))
   \<and> rotatePhoto (io_android 2000) (Some one_photo) = Some one_photo
   \<and> rotateAndUpdate (io_android 2000) (Some one_photo) = (None, [], Some one_photo)"
  using advance_short_set [of "io_android 2000" None "example_data [] Single"]
    advance_short_set [of "io_android 2000" None one_photo]
  by (simp add: getWidgetData_def io_android_def one_photo_def example_data_def)

section \<open>Rendering with an index out of range\<close>

lemma currentPhoto_nonempty:
  assumes "photos d \<noteq> []"
  shows "currentPhoto d =
           Some (if 0 \<le> currentIndex d \<and> currentIndex d < int (length (photos d))
                 then photos d ! nat (currentIndex d) else photos d ! 0)"
  using assms by (simp add: currentPhoto_def js_index_def)

lemma getImageAsBase64_nonempty: "getImageAsBase64 fs path = Some img \<Longrightarrow> img \<noteq> []"
  by (auto simp add: getImageAsBase64_def split: if_splits option.splits)

text \<open>
  Claim C10. For every stored record with a non-empty photos list, the photo chosen for
  display is \<open>photos[currentIndex]\<close> when the index is in range and \<open>photos[0]\<close>
  otherwise; both render functions return a widget and never throw, whatever the
  index: the image of the chosen photo, or the "unable to load" widget when its file
  cannot be read.
\<close>

theorem render_total:
  assumes "photos d \<noteq> []"
  shows "(let p = (if 0 \<le> currentIndex d \<and> currentIndex d < int (length (photos d))
                   then photos d ! nat (currentIndex d) else photos d ! 0)
          in currentPhoto d = Some p
             \<and> (\<not> read_fails e \<longrightarrow>
                  renderPhotoWidget e fs (Some d) =
                    (case getImageAsBase64 fs (or_string (localPath p) (url p)) of
                       None \<Rightarrow> Inr (UnableToLoad ''Unable to load photo'')
                     | Some img \<Rightarrow> Inr (Image img ''ROTATE_PHOTO''))
                  \<and> renderWidgetForUpdate e fs (Some d) =
                    (case getImageAsBase64 fs (or_string (localPath p) (url p)) of
                       None \<Rightarrow> Inr (UnableToLoad ''Unable to load'')
                     | Some img \<Rightarrow> Inr (Image img ''ROTATE_PHOTO''))))
       \<and> (\<exists>r. renderPhotoWidget e fs (Some d) = Inr r)
       \<and> (\<exists>r. renderWidgetForUpdate e fs (Some d) = Inr r)"
proof -
  let ?p = "if 0 \<le> currentIndex d \<and> currentIndex d < int (length (photos d))
            then photos d ! nat (currentIndex d) else photos d ! 0"
  have cp: "currentPhoto d = Some ?p" using assms by (rule currentPhoto_nonempty)
  have r1: "\<not> read_fails e \<Longrightarrow> renderPhotoWidget e fs (Some d) =
                    (case getImageAsBase64 fs (or_string (localPath ?p) (url ?p)) of
                       None \<Rightarrow> Inr (UnableToLoad ''Unable to load photo'')
                     | Some img \<Rightarrow> Inr (Image img ''ROTATE_PHOTO''))"
    using assms cp
    by (auto simp add: renderPhotoWidget_def widget_getWidgetData_def
        split: option.splits dest: getImageAsBase64_nonempty)
  have r2: "\<not> read_fails e \<Longrightarrow> renderWidgetForUpdate e fs (Some d) =
                    (case getImageAsBase64 fs (or_string (localPath ?p) (url ?p)) of
                       None \<Rightarrow> Inr (UnableToLoad ''Unable to load'')
                     | Some img \<Rightarrow> Inr (Image img ''ROTATE_PHOTO''))"
    using assms cp
    by (auto simp add: renderWidgetForUpdate_def widget_getWidgetData_def
        split: option.splits dest: getImageAsBase64_nonempty)
  have t1: "\<exists>r. renderPhotoWidget e fs (Some d) = Inr r"
    using assms cp
    by (auto simp add: renderPhotoWidget_def widget_getWidgetData_def split: option.splits)
  have t2: "\<exists>r. renderWidgetForUpdate e fs (Some d) = Inr r"
    using assms cp
    by (auto simp add: renderWidgetForUpdate_def widget_getWidgetData_def split: option.splits)
  show ?thesis
    unfolding Let_def using cp r1 r2 t1 t2 by blast
qed

theorem render_total_witness:
  "currentPhoto out_of_range_data = Some (example_photo ''a.jpg'')
   \<and> renderPhotoWidget (io_android 2000) example_fs (Some out_of_range_data)
       = Inr (Image ''data:image/jpeg;base64,QUJD'' ''ROTATE_PHOTO'')
   \<and> renderWidgetForUpdate (io_android 2000) example_fs (Some out_of_range_data)
       = Inr (Image ''data:image/jpeg;base64,QUJD'' ''ROTATE_PHOTO'')"
  using render_total [of out_of_range_data "io_android 2000" example_fs]
  by (simp add: out_of_range_data_def example_data_def example_photo_def io_android_def
      example_fs_def getImageAsBase64_def or_string_def Let_def)

section \<open>Rotation triggers: calls per firing\<close>

text \<open>
  Claim C7 as stated fails: with two photos stored in single mode, a firing of the
  background-fetch task makes no advance call and no re-render request.
\<close>

theorem trigger_single_mode_counterexample:
  "backgroundFetchTask (io_android 2000) (Some two_photos_single)
     = (NoData, [], Some two_photos_single)
   \<and> fst (snd (backgroundFetchTask (io_android 2000) (Some two_photos_single)))
       \<noteq> [RotateToNextPhotoCall, RequestWidgetUpdateCall]"
  by (simp add: backgroundFetchTask_def getWidgetData_def io_android_def two_photos_single_def
      example_data_def)

text \<open>
  Claim C7, amended. A tap on the widget (\<^verbatim>\<open>WIDGET_CLICK\<close>) makes exactly one
  \<^verbatim>\<open>rotatePhoto\<close> call followed by exactly one render, in every state. A firing of the
  background-fetch task makes exactly one \<^verbatim>\<open>rotateToNextPhoto\<close> call followed by exactly
  one \<^verbatim>\<open>requestWidgetUpdate\<close> when a record in slideshow mode with more than one photo is
  read and the write succeeds, and makes neither call when no record is read, the mode
  is single, or there is at most one photo. \<^verbatim>\<open>rotateAndUpdate\<close> does the same with more
  than one photo in either mode, and makes neither call with at most one photo. No
  firing makes more than one advance call, and a re-render request only follows an
  advance.
\<close>

theorem trigger_contract:
  "fst (widgetTaskHandler WIDGET_CLICK clickAction e e' fs st)
     = [RotatePhotoCall, RenderPhotoWidgetCall]
   \<and> (getWidgetData e st = Some d \<and> displayMode d = Slideshow \<and> length (photos d) > 1
        \<and> write_error e = None
      \<longrightarrow> fst (snd (backgroundFetchTask e st)) = [RotateToNextPhotoCall, RequestWidgetUpdateCall])
   \<and> (getWidgetData e st = None
        \<or> (\<exists>d. getWidgetData e st = Some d \<and> (displayMode d = Single \<or> length (photos d) \<le> 1))
      \<longrightarrow> fst (snd (backgroundFetchTask e st)) = [])
   \<and> (getWidgetData e st = Some d \<and> length (photos d) > 1 \<and> write_error e = None
      \<longrightarrow> fst (snd (rotateAndUpdate e st)) = [RotateToNextPhotoCall, RequestWidgetUpdateCall])
   \<and> (getWidgetData e st = None \<or> (\<exists>d. getWidgetData e st = Some d \<and> length (photos d) \<le> 1)
      \<longrightarrow> fst (snd (rotateAndUpdate e st)) = [])
   \<and> fst (snd (backgroundFetchTask e st))
        \<in> {[], [RotateToNextPhotoCall], [RotateToNextPhotoCall, RequestWidgetUpdateCall]}
   \<and> fst (snd (rotateAndUpdate e st))
        \<in> {[], [RotateToNextPhotoCall], [RotateToNextPhotoCall, RequestWidgetUpdateCall]}"
proof (intro conjI impI)
  show "fst (widgetTaskHandler WIDGET_CLICK clickAction e e' fs st)
          = [RotatePhotoCall, RenderPhotoWidgetCall]"
    by (simp add: widgetTaskHandler_def Let_def)
next
  assume a: "getWidgetData e st = Some d \<and> displayMode d = Slideshow \<and> length (photos d) > 1
        \<and> write_error e = None"
  then have "st = Some d" "os e = Android" "\<not> read_fails e" "photos d \<noteq> []"
    by (auto simp add: getWidgetData_def split: if_splits)
  then show "fst (snd (backgroundFetchTask e st)) = [RotateToNextPhotoCall, RequestWidgetUpdateCall]"
    using a by (simp add: backgroundFetchTask_def rotateToNextPhoto_step)
next
  assume "getWidgetData e st = None
        \<or> (\<exists>d. getWidgetData e st = Some d \<and> (displayMode d = Single \<or> length (photos d) \<le> 1))"
  then show "fst (snd (backgroundFetchTask e st)) = []"
    by (auto simp add: backgroundFetchTask_def)
next
  assume a: "getWidgetData e st = Some d \<and> length (photos d) > 1 \<and> write_error e = None"
  then have "st = Some d" "os e = Android" "\<not> read_fails e" "photos d \<noteq> []"
    by (auto simp add: getWidgetData_def split: if_splits)
  then show "fst (snd (rotateAndUpdate e st)) = [RotateToNextPhotoCall, RequestWidgetUpdateCall]"
    using a by (simp add: rotateAndUpdate_def rotateToNextPhoto_step)
next
  assume "getWidgetData e st = None \<or> (\<exists>d. getWidgetData e st = Some d \<and> length (photos d) \<le> 1)"
  then show "fst (snd (rotateAndUpdate e st)) = []"
    by (auto simp add: rotateAndUpdate_def getWidgetData_def split: if_splits)
next
  show "fst (snd (backgroundFetchTask e st))
        \<in> {[], [RotateToNextPhotoCall], [RotateToNextPhotoCall, RequestWidgetUpdateCall]}"
    by (simp add: backgroundFetchTask_def split: option.splits sum.splits)
next
  show "fst (snd (rotateAndUpdate e st))
        \<in> {[], [RotateToNextPhotoCall], [RotateToNextPhotoCall, RequestWidgetUpdateCall]}"
    by (simp add: rotateAndUpdate_def split: option.splits sum.splits)
qed

theorem trigger_contract_witness:
  "fst (widgetTaskHandler WIDGET_CLICK ''ROTATE_PHOTO'' (io_android 2000) (io_android 2001)
          example_fs (Some two_photos_slideshow))
     = [RotatePhotoCall, RenderPhotoWidgetCall]
   \<and> fst (snd (backgroundFetchTask (io_android 2000) (Some two_photos_slideshow)))
       = [RotateToNextPhotoCall, RequestWidgetUpdateCall]
   \<and> fst (snd (rotateAndUpdate (io_android 2000) (Some two_photos_slideshow)))
       = [RotateToNextPhotoCall, RequestWidgetUpdateCall]
   \<and> fst (snd (backgroundFetchTask (io_android 2000) (Some one_photo))) = []
   \<and> fst (snd (rotateAndUpdate (io_android 2000) (Some one_photo))) = []"
  using trigger_contract [of "''ROTATE_PHOTO''" "io_android 2000" "io_android 2001" example_fs
      "Some two_photos_slideshow" two_photos_slideshow]
    trigger_contract [of "''ROTATE_PHOTO''" "io_android 2000" "io_android 2001" example_fs
      "Some one_photo" one_photo]
  by (simp add: getWidgetData_def io_android_def two_photos_slideshow_def one_photo_def
      example_data_def)

section \<open>Adding local photos: ids after a merge\<close>

lemma last_segment_example: "last_segment ''file:///picked/a.jpg'' = ''a.jpg''"
  by (simp add: last_segment_def)

text \<open>
  Claim C9 as stated fails: the photos tab holds one photo with id \<^verbatim>\<open>a.jpg\<close>, and the
  user picks a local file whose name is \<^verbatim>\<open>a.jpg\<close>. The stored photo set then has two
  entries with that id.
\<close>

theorem merge_duplicate_id_counterexample:
  "map photo_id (case tab_stored (handleAddLocalPhotos tab_env tab_screen) of
                   None \<Rightarrow> [] | Some d \<Rightarrow> photos d) = [''a.jpg'', ''a.jpg'']
   \<and> \<not> distinct (map photo_id (case tab_stored (handleAddLocalPhotos tab_env tab_screen) of
                                  None \<Rightarrow> [] | Some d \<Rightarrow> photos d))"
  by (simp add: handleAddLocalPhotos_def tab_env_def tab_screen_def one_photo_def example_data_def
      example_photo_def io_android_def saveWidgetPhotos_def saveWidgetData_def loadWidgetData_def
      tab_emit_def getWidgetData_def localPhoto_of_def fileName_of_def last_segment_def Let_def)

text \<open>
  Claim C9, amended. \<^verbatim>\<open>handleAddLocalPhotos\<close> stores the existing photos followed by the
  newly copied ones and removes nothing: there is no test on ids. The stored ids are
  therefore unique exactly when the existing ids are unique, the new ids are unique,
  and the two share no id.
\<close>

theorem merge_appends:
  assumes "permissionStatus env = Inr ''granted''"
    and "launchResult env = Inr (Some assets)"
    and "copy_loop env 0 assets [] \<noteq> []"
    and "os (tab_storage env) = Android" and "write_error (tab_storage env) = None"
  shows "\<exists>d. tab_stored (handleAddLocalPhotos env w) = Some d
           \<and> photos d = (case widgetData w of None \<Rightarrow> [] | Some x \<Rightarrow> photos x)
                          @ copy_loop env 0 assets []
           \<and> (distinct (map photo_id (photos d)) \<longleftrightarrow>
                  distinct (map photo_id (case widgetData w of None \<Rightarrow> [] | Some x \<Rightarrow> photos x))
                  \<and> distinct (map photo_id (copy_loop env 0 assets []))
                  \<and> set (map photo_id (case widgetData w of None \<Rightarrow> [] | Some x \<Rightarrow> photos x))
                      \<inter> set (map photo_id (copy_loop env 0 assets [])) = {})"
proof -
  have ne: "assets \<noteq> []" using assms(3) by auto
  show ?thesis
    using assms ne
    by (simp add: handleAddLocalPhotos_def Let_def saveWidgetPhotos_def saveWidgetData_def
        loadWidgetData_def tab_emit_def)
qed

theorem merge_appends_witness:
  "\<exists>d. tab_stored (handleAddLocalPhotos tab_env
                      (tab_screen\<lparr>widgetData := Some two_photos_slideshow\<rparr>)) = Some d
       \<and> map photo_id (photos d) = [''a.jpg'', ''b.jpg'', ''a.jpg'']
       \<and> \<not> distinct (map photo_id (photos d))"
proof -
  have h1: "permissionStatus tab_env = Inr ''granted''"
    by (simp add: tab_env_def)
  have h2: "launchResult tab_env = Inr (Some [picked_asset])"
    by (simp add: tab_env_def picked_asset_def)
  have c: "copy_loop tab_env 0 [picked_asset] [] = [localPhoto_of tab_env 0 picked_asset]"
    by (simp add: tab_env_def)
  have h3: "copy_loop tab_env 0 [picked_asset] [] \<noteq> []"
    unfolding c by simp
  have h4: "os (tab_storage tab_env) = Android"
    by (simp add: tab_env_def io_android_def)
  have h5: "write_error (tab_storage tab_env) = None"
    by (simp add: tab_env_def io_android_def)
  have n: "photo_id (localPhoto_of tab_env 0 picked_asset) = ''a.jpg''"
    by (simp add: localPhoto_of_def fileName_of_def last_segment_def picked_asset_def)
  obtain d where d: "tab_stored (handleAddLocalPhotos tab_env
                      (tab_screen\<lparr>widgetData := Some two_photos_slideshow\<rparr>)) = Some d"
    "photos d = (case widgetData (tab_screen\<lparr>widgetData := Some two_photos_slideshow\<rparr>) of
                   None \<Rightarrow> [] | Some x \<Rightarrow> photos x) @ copy_loop tab_env 0 [picked_asset] []"
    using merge_appends [OF h1 h2 h3 h4 h5] by blast
  have "map photo_id (photos d) = [''a.jpg'', ''b.jpg'', ''a.jpg'']"
    using d(2) c n by (simp add: two_photos_slideshow_def example_data_def example_photo_def)
  with d(1) show ?thesis by auto
qed

section \<open>Settings: the floor of the custom interval\<close>

lemma stop_keeps:
  "settings_stored (screen_after (stopRotationService env w)) = settings_stored w
   \<and> rotationInterval (screen_after (stopRotationService env w)) = rotationInterval w"
  by (simp add: stopRotationService_def screen_after_def settings_emit_def split: option.splits)

lemma start_keeps:
  "settings_stored (screen_after (startRotationService env n w)) = settings_stored w
   \<and> rotationInterval (screen_after (startRotationService env n w)) = rotationInterval w"
  by (simp add: startRotationService_def screen_after_def settings_emit_def split: option.splits)

lemma handleIntervalChange_stored:
  "settings_stored (screen_after (handleIntervalChange env n w))
      = (settings_stored w)\<lparr>rotationIntervalSeconds := Some n\<rparr>
   \<and> rotationInterval (screen_after (handleIntervalChange env n w)) = n"
proof -
  define w2 where "w2 =
     (if backgroundFetchEnabled w
      then settings_emit (RegisterBackgroundFetch n)
             (settings_emit (UpdateRotationInterval n)
               (w\<lparr>rotationInterval := n,
                  settings_stored := updateRotationInterval n (settings_stored w)\<rparr>))
      else settings_emit (UpdateRotationInterval n)
             (w\<lparr>rotationInterval := n,
                settings_stored := updateRotationInterval n (settings_stored w)\<rparr>))"
  have w2: "settings_stored w2 = (settings_stored w)\<lparr>rotationIntervalSeconds := Some n\<rparr>"
    "rotationInterval w2 = n"
    by (simp_all add: w2_def settings_emit_def updateRotationInterval_def)
  have eq: "handleIntervalChange env n w =
      (if foregroundServiceEnabled w then
         (case stopRotationService env w2 of
            Inl thrown_at \<Rightarrow> Inl thrown_at
          | Inr w3 \<Rightarrow> startRotationService env n w3)
       else Inr w2)"
    by (simp add: handleIntervalChange_def Let_def w2_def)
  show ?thesis
  proof (cases "foregroundServiceEnabled w")
    case False
    then show ?thesis using w2 by (simp add: eq screen_after_def)
  next
    case True
    show ?thesis
    proof (cases "stopRotationService env w2")
      case (Inl a)
      then have "screen_after (handleIntervalChange env n w) = screen_after (stopRotationService env w2)"
        using True by (simp add: eq)
      then show ?thesis using stop_keeps [of env w2] w2 by simp
    next
      case (Inr w3)
      then have w3: "settings_stored w3 = settings_stored w2" "rotationInterval w3 = rotationInterval w2"
        using stop_keeps [of env w2] by (simp_all add: screen_after_def)
      have "screen_after (handleIntervalChange env n w) = screen_after (startRotationService env n w3)"
        using True Inr by (simp add: eq)
      then show ?thesis using start_keeps [of env n w3] w3 w2 by simp
    qed
  qed
qed

lemma handleIntervalChange_succeeds:
  assumes "foregroundServiceEnabled w \<longrightarrow> stopService_error env = None \<and> startService_error env = None"
  shows "\<exists>w'. handleIntervalChange env n w = Inr w'"
  using assms
  by (auto simp add: handleIntervalChange_def Let_def stopRotationService_def
      startRotationService_def split: option.splits)

text \<open>
  Claim C8. Submitting a custom interval that parses to a number below 5 (or to no
  number) is rejected with the "Invalid" alert, and neither the stored record nor the
  screen's interval changes; so \<open>3\<close> is rejected. A value of at least 5 is stored:
  afterwards the stored record is the old one with \<open>rotationIntervalSeconds\<close> set to the
  value and no other field changed, so \<open>5\<close> is accepted and read back. The submit
  returns normally unless the restart of the foreground service throws.
\<close>

theorem setInterval_floor:
  "(parseInt env (if customIntervalInput w = [] then ''30'' else customIntervalInput w) = None
      \<or> (\<exists>n. parseInt env (if customIntervalInput w = [] then ''30'' else customIntervalInput w) = Some n
              \<and> n < 5)
    \<longrightarrow> handleCustomIntervalSubmit env w
          = Inr (settings_emit (SettingsAlert ''Invalid'' ''Interval must be at least 5 seconds'') w)
       \<and> settings_stored (screen_after (handleCustomIntervalSubmit env w)) = settings_stored w
       \<and> rotationInterval (screen_after (handleCustomIntervalSubmit env w)) = rotationInterval w)
   \<and> (parseInt env (if customIntervalInput w = [] then ''30'' else customIntervalInput w) = Some n
        \<and> 5 \<le> n
    \<longrightarrow> settings_stored (screen_after (handleCustomIntervalSubmit env w))
          = (settings_stored w)\<lparr>rotationIntervalSeconds := Some n\<rparr>
       \<and> rotationIntervalSeconds (settings_stored (screen_after (handleCustomIntervalSubmit env w)))
          = Some n
       \<and> rotationInterval (screen_after (handleCustomIntervalSubmit env w)) = n
       \<and> ((foregroundServiceEnabled w
              \<longrightarrow> stopService_error env = None \<and> startService_error env = None)
            \<longrightarrow> (\<exists>w'. handleCustomIntervalSubmit env w = Inr w')))"
proof (intro conjI impI)
  assume a: "parseInt env (if customIntervalInput w = [] then ''30'' else customIntervalInput w) = None
      \<or> (\<exists>n. parseInt env (if customIntervalInput w = [] then ''30'' else customIntervalInput w) = Some n
              \<and> n < 5)"
  then show r: "handleCustomIntervalSubmit env w
          = Inr (settings_emit (SettingsAlert ''Invalid'' ''Interval must be at least 5 seconds'') w)"
    by (auto simp add: handleCustomIntervalSubmit_def)
  show "settings_stored (screen_after (handleCustomIntervalSubmit env w)) = settings_stored w"
    by (simp add: r screen_after_def settings_emit_def)
  show "rotationInterval (screen_after (handleCustomIntervalSubmit env w)) = rotationInterval w"
    by (simp add: r screen_after_def settings_emit_def)
next
  assume a: "parseInt env (if customIntervalInput w = [] then ''30'' else customIntervalInput w) = Some n
        \<and> 5 \<le> n"
  have sa: "screen_after (handleCustomIntervalSubmit env w)
              = screen_after (handleIntervalChange env n w)
          \<or> (\<exists>w'. handleIntervalChange env n w = Inr w'
                \<and> (screen_after (handleCustomIntervalSubmit env w) = w'\<lparr>showCustomModal := False\<rparr>
                   \<or> screen_after (handleCustomIntervalSubmit env w)
                       = settings_emit
                           (SettingsAlert ''Enable Reliable Rotation''
                             (''For intervals under 15 min, enable '' @ [CHR 0x22] @ ''Reliable Rotation''
                               @ [CHR 0x22] @ '' in settings for guaranteed timing. ''
                               @ ''Background rotation may be delayed by Android.''))
                           (w'\<lparr>showCustomModal := False\<rparr>)))"
    using a by (cases "handleIntervalChange env n w")
      (auto simp add: handleCustomIntervalSubmit_def screen_after_def)
  have st: "settings_stored (screen_after (handleCustomIntervalSubmit env w))
              = settings_stored (screen_after (handleIntervalChange env n w))
          \<and> rotationInterval (screen_after (handleCustomIntervalSubmit env w))
              = rotationInterval (screen_after (handleIntervalChange env n w))"
    using sa by (auto simp add: screen_after_def settings_emit_def)
  show s1: "settings_stored (screen_after (handleCustomIntervalSubmit env w))
          = (settings_stored w)\<lparr>rotationIntervalSeconds := Some n\<rparr>"
    using st handleIntervalChange_stored [of env n w] by simp
  show "rotationIntervalSeconds (settings_stored (screen_after (handleCustomIntervalSubmit env w)))
          = Some n"
    by (simp add: s1)
  show "rotationInterval (screen_after (handleCustomIntervalSubmit env w)) = n"
    using st handleIntervalChange_stored [of env n w] by simp
  assume "foregroundServiceEnabled w
              \<longrightarrow> stopService_error env = None \<and> startService_error env = None"
  then obtain w' where "handleIntervalChange env n w = Inr w'"
    using handleIntervalChange_succeeds by blast
  then show "\<exists>w'. handleCustomIntervalSubmit env w = Inr w'"
    using a by (simp add: handleCustomIntervalSubmit_def)
qed

theorem setInterval_floor_witness:
  "handleCustomIntervalSubmit settings_env_example (settings_example ''3'')
     = Inr (settings_emit (SettingsAlert ''Invalid'' ''Interval must be at least 5 seconds'')
              (settings_example ''3''))
   \<and> rotationIntervalSeconds
        (settings_stored (screen_after (handleCustomIntervalSubmit settings_env_example
                                          (settings_example ''3'')))) = Some 1800
   \<and> settings_stored (screen_after (handleCustomIntervalSubmit settings_env_example
                                       (settings_example ''5'')))
       = two_photos_slideshow\<lparr>rotationIntervalSeconds := Some 5\<rparr>
   \<and> (\<exists>w'. handleCustomIntervalSubmit settings_env_example (settings_example ''5'') = Inr w')"
proof -
  have i: "customIntervalInput (settings_example ''3'') = ''3''"
    "customIntervalInput (settings_example ''5'') = ''5''"
    by (simp_all add: settings_example_def)
  have s: "settings_stored (settings_example ''3'')
             = two_photos_slideshow\<lparr>rotationIntervalSeconds := Some 1800\<rparr>"
    "settings_stored (settings_example ''5'')
             = two_photos_slideshow\<lparr>rotationIntervalSeconds := Some 1800\<rparr>"
    by (simp_all add: settings_example_def)
  have e: "stopService_error settings_env_example = None"
    "startService_error settings_env_example = None"
    "parseInt settings_env_example ''3'' = Some 3"
    "parseInt settings_env_example ''5'' = Some 5"
    by (simp_all add: settings_env_example_def example_parseInt_def)
  show ?thesis
    using setInterval_floor [where env = settings_env_example and w = "settings_example ''3''"
        and n = 3]
      setInterval_floor [where env = settings_env_example and w = "settings_example ''5''"
        and n = 5]
    by (simp add: i s e screen_after_def settings_emit_def)
qed

section \<open>The acquisition workflow: loops\<close>

lemma download_loop_eq:
  "download_loop env tot i items acc w =
     (acc @ map (widgetPhoto_of env)
              (map snd (filter (\<lambda>(j, p). download env j = DownloadStatus 200)
                          (enumerate i items))),
      w\<lparr>downloadProgress := (if items = [] then downloadProgress w else (i + length items, tot)),
        events := events w @ concat (map (\<lambda>(j, p). attempt_events env tot j p)
                                      (enumerate i items))\<rparr>)"
proof (induction items arbitrary: i acc w)
  case Nil
  then show ?case by simp
next
  case (Cons p rest)
  show ?case
    by (cases "download env i")
      (simp_all add: Cons.IH emit_def attempt_events_def)
qed

lemma poll_loop_unready:
  assumes "\<forall>n. a \<le> n \<and> n < a + j \<longrightarrow> (\<exists>sess. sessionStatus env n = Inr sess \<and> \<not> mediaItemsSet sess)"
    and "a + j \<le> maxAttempts"
  shows "poll_loop env s a w =
           poll_loop env s (a + j)
             (w\<lparr>events := events w @ concat (replicate j [GetPickerSession s, Sleep 5000])\<rparr>)"
  using assms
proof (induction j arbitrary: a w)
  case 0
  then show ?case by simp
next
  case (Suc j)
  obtain sess where sess: "sessionStatus env a = Inr sess" "\<not> mediaItemsSet sess"
    using Suc.prems(1) by auto
  have lt: "a < maxAttempts" using Suc.prems(2) by simp
  have step: "poll_loop env s a w =
                poll_loop env s (a + 1) (emit (Sleep 5000) (emit (GetPickerSession s) w))"
    using sess lt by (subst poll_loop.simps) simp
  have "poll_loop env s (a + 1) (emit (Sleep 5000) (emit (GetPickerSession s) w)) =
          poll_loop env s (a + 1 + j)
            ((emit (Sleep 5000) (emit (GetPickerSession s) w))
               \<lparr>events := events (emit (Sleep 5000) (emit (GetPickerSession s) w))
                            @ concat (replicate j [GetPickerSession s, Sleep 5000])\<rparr>)"
    using Suc.prems by (intro Suc.IH) auto
  then show ?case by (simp add: step emit_def)
qed

lemma wait_loop_unready:
  assumes "\<forall>n. a \<le> n \<and> n < a + j \<longrightarrow> (\<exists>sess. sessionStatus env n = Inr sess \<and> \<not> mediaItemsSet sess)"
    and "a + j \<le> maxAttempts"
  shows "wait_loop env s a evs =
           wait_loop env s (a + j) (evs @ concat (replicate j [GetPickerSession s, Sleep 5000]))"
  using assms
proof (induction j arbitrary: a evs)
  case 0
  then show ?case by simp
next
  case (Suc j)
  obtain sess where sess: "sessionStatus env a = Inr sess" "\<not> mediaItemsSet sess"
    using Suc.prems(1) by auto
  have lt: "a < maxAttempts" using Suc.prems(2) by simp
  have step: "wait_loop env s a evs =
                wait_loop env s (a + 1) (evs @ [GetPickerSession s, Sleep 5000])"
    using sess lt by (subst wait_loop.simps) simp
  have "wait_loop env s (a + 1) (evs @ [GetPickerSession s, Sleep 5000]) =
          wait_loop env s (a + 1 + j)
            ((evs @ [GetPickerSession s, Sleep 5000])
               @ concat (replicate j [GetPickerSession s, Sleep 5000]))"
    using Suc.prems by (intro Suc.IH) auto
  then show ?case by (simp add: step)
qed

section \<open>The acquisition workflow: polling\<close>

lemma poll_loop_ready:
  assumes "a < maxAttempts" "sessionStatus env a = Inr sess" "mediaItemsSet sess"
  shows "poll_loop env s a w = fetchSelectedPhotos env s (emit (GetPickerSession s) w)"
  using assms by (subst poll_loop.simps) simp

lemma poll_loop_throws:
  assumes "a < maxAttempts" "sessionStatus env a = Inl err"
  shows "poll_loop env s a w = poll_failed env s (emit (GetPickerSession s) w)"
  using assms by (subst poll_loop.simps) simp

lemma poll_loop_exhausted: "poll_loop env s maxAttempts w = poll_failed env s w"
  by (subst poll_loop.simps) simp

lemma wait_loop_ready:
  assumes "a < maxAttempts" "sessionStatus env a = Inr sess" "mediaItemsSet sess"
  shows "wait_loop env s a evs = (True, evs @ [GetPickerSession s])"
  using assms by (subst wait_loop.simps) simp

lemma wait_loop_throws:
  assumes "a < maxAttempts" "sessionStatus env a = Inl err"
  shows "wait_loop env s a evs = (False, evs @ [GetPickerSession s])"
  using assms by (subst wait_loop.simps) simp

lemma wait_loop_exhausted: "wait_loop env s maxAttempts evs = (False, evs)"
  by (subst wait_loop.simps) simp

lemma poll_never_ready:
  assumes "\<forall>n<60. \<exists>sess. sessionStatus env n = Inr sess \<and> \<not> mediaItemsSet sess"
  shows "pollForSelection env s w =
           poll_failed env s
             (w\<lparr>events := events w @ concat (replicate 60 [GetPickerSession s, Sleep 5000])\<rparr>)"
proof -
  have "poll_loop env s 0 w =
          poll_loop env s (0 + 60)
            (w\<lparr>events := events w @ concat (replicate 60 [GetPickerSession s, Sleep 5000])\<rparr>)"
    using assms by (intro poll_loop_unready) (auto simp add: maxAttempts_def)
  then show ?thesis
    using poll_loop_exhausted [of env s] by (simp add: pollForSelection_def maxAttempts_def)
qed

lemma wait_never_ready:
  assumes "\<forall>n<60. \<exists>sess. sessionStatus env n = Inr sess \<and> \<not> mediaItemsSet sess"
  shows "wait_loop env s 0 evs =
           (False, evs @ concat (replicate 60 [GetPickerSession s, Sleep 5000]))"
proof -
  have "wait_loop env s 0 evs =
          wait_loop env s (0 + 60) (evs @ concat (replicate 60 [GetPickerSession s, Sleep 5000]))"
    using assms by (intro wait_loop_unready) (auto simp add: maxAttempts_def)
  then show ?thesis
    using wait_loop_exhausted [of env s] by (simp add: maxAttempts_def)
qed

lemma count_polls:
  "count_list (concat (replicate n [GetPickerSession s, Sleep 5000])) (GetPickerSession s) = n"
  "count_list (concat (replicate n [GetPickerSession s, Sleep 5000])) (DeletePickerSession s) = 0"
  by (induction n) simp_all

text \<open>
  Claim C2, amended. If the session never reports readiness, the polling step makes
  exactly 60 calls of \<^verbatim>\<open>getPickerSession\<close> (each followed by a 5 second sleep), then sets
  the error state with the message "No photos were selected or the session timed out",
  and calls \<^verbatim>\<open>deletePickerSession\<close> exactly once (for a non-empty session id). The stored
  widget record is untouched. The message and state are the same as after a transport
  failure: the code has no separate timeout kind. \<^verbatim>\<open>waitForPhotoSelection\<close> likewise
  returns \<^verbatim>\<open>false\<close> after 60 calls.
\<close>

theorem poll_timeout:
  assumes "\<forall>n<60. \<exists>sess. sessionStatus env n = Inr sess \<and> \<not> mediaItemsSet sess"
    and "s \<noteq> []"
  shows "events (pollForSelection env s w) =
           events w @ concat (replicate 60 [GetPickerSession s, Sleep 5000])
             @ [SetError ''No photos were selected or the session timed out'',
                SetState ErrorState, DeletePickerSession s]
       \<and> count_list (drop (length (events w)) (events (pollForSelection env s w)))
            (GetPickerSession s) = 60
       \<and> count_list (drop (length (events w)) (events (pollForSelection env s w)))
            (DeletePickerSession s) = 1
       \<and> state (pollForSelection env s w) = ErrorState
       \<and> error (pollForSelection env s w)
            = Some ''No photos were selected or the session timed out''
       \<and> stored (pollForSelection env s w) = stored w
       \<and> waitForPhotoSelection env s
            = (False, concat (replicate 60 [GetPickerSession s, Sleep 5000]))"
proof -
  have p: "pollForSelection env s w =
           poll_failed env s
             (w\<lparr>events := events w @ concat (replicate 60 [GetPickerSession s, Sleep 5000])\<rparr>)"
    using assms(1) by (rule poll_never_ready)
  have ev: "events (pollForSelection env s w) =
           events w @ concat (replicate 60 [GetPickerSession s, Sleep 5000])
             @ [SetError ''No photos were selected or the session timed out'',
                SetState ErrorState, DeletePickerSession s]"
    using assms(2) by (simp add: p poll_failed_def setState_def setError_def emit_def)
  have dr: "drop (length (events w)) (events (pollForSelection env s w)) =
           concat (replicate 60 [GetPickerSession s, Sleep 5000])
             @ [SetError ''No photos were selected or the session timed out'',
                SetState ErrorState, DeletePickerSession s]"
    by (simp add: ev)
  have c1: "count_list (drop (length (events w)) (events (pollForSelection env s w)))
            (GetPickerSession s) = 60"
    unfolding dr by (simp add: count_polls)
  have c2: "count_list (drop (length (events w)) (events (pollForSelection env s w)))
            (DeletePickerSession s) = 1"
    unfolding dr by (simp add: count_polls)
  have st: "state (pollForSelection env s w) = ErrorState"
    "error (pollForSelection env s w) = Some ''No photos were selected or the session timed out''"
    "stored (pollForSelection env s w) = stored w"
    by (simp_all add: p poll_failed_def setState_def setError_def emit_def)
  have wt: "waitForPhotoSelection env s
            = (False, concat (replicate 60 [GetPickerSession s, Sleep 5000]))"
    using wait_never_ready [OF assms(1), of s "[]"] by (simp add: waitForPhotoSelection_def)
  show ?thesis using ev c1 c2 st wt by blast
qed

theorem poll_timeout_witness:
  "state (pollForSelection never_ready_env ''s1'' initial_screen) = ErrorState
   \<and> error (pollForSelection never_ready_env ''s1'' initial_screen)
        = Some ''No photos were selected or the session timed out''
   \<and> count_list (events (pollForSelection never_ready_env ''s1'' initial_screen))
        (GetPickerSession ''s1'') = 60
   \<and> count_list (events (pollForSelection never_ready_env ''s1'' initial_screen))
        (DeletePickerSession ''s1'') = 1"
proof -
  have h: "\<forall>n<60. \<exists>sess. sessionStatus never_ready_env n = Inr sess \<and> \<not> mediaItemsSet sess"
    by (simp add: never_ready_env_def example_session_def)
  have e: "events initial_screen = []" by (simp add: initial_screen_def)
  show ?thesis
    using poll_timeout [OF h, of "''s1''" initial_screen] by (simp add: e count_polls)
qed

text \<open>
  Claim C2 as stated fails in its "distinguishable \<^verbatim>\<open>TimeoutError\<close> kind": a session that
  is never ready and a session whose first status call throws leave the screen in the
  same state with the same error message, and \<^verbatim>\<open>waitForPhotoSelection\<close> returns the same
  value for both.
\<close>

theorem timeout_indistinguishable_counterexample:
  "state (pollForSelection never_ready_env ''s1'' initial_screen)
     = state (pollForSelection transport_failure_env ''s1'' initial_screen)
   \<and> error (pollForSelection never_ready_env ''s1'' initial_screen)
     = error (pollForSelection transport_failure_env ''s1'' initial_screen)
   \<and> error (pollForSelection transport_failure_env ''s1'' initial_screen)
     = Some ''No photos were selected or the session timed out''
   \<and> fst (waitForPhotoSelection never_ready_env ''s1'')
     = fst (waitForPhotoSelection transport_failure_env ''s1'')"
proof -
  have h: "\<forall>n<60. \<exists>sess. sessionStatus never_ready_env n = Inr sess \<and> \<not> mediaItemsSet sess"
    by (simp add: never_ready_env_def example_session_def)
  have t: "sessionStatus transport_failure_env 0 = Inl (Error ''Failed to get picker session: 503'')"
    by (simp add: transport_failure_env_def)
  have a: "pollForSelection transport_failure_env ''s1'' initial_screen
             = poll_failed transport_failure_env ''s1'' (emit (GetPickerSession ''s1'') initial_screen)"
    unfolding pollForSelection_def by (rule poll_loop_throws [OF _ t]) (simp add: maxAttempts_def)
  have b: "waitForPhotoSelection transport_failure_env ''s1'' = (False, [GetPickerSession ''s1''])"
    unfolding waitForPhotoSelection_def
    using wait_loop_throws [OF _ t, of "''s1''" "[]"] by (simp add: maxAttempts_def)
  have c: "fst (waitForPhotoSelection never_ready_env ''s1'') = False"
    unfolding waitForPhotoSelection_def by (simp add: wait_never_ready [OF h])
  show ?thesis
    by (simp add: poll_never_ready [OF h] a b c poll_failed_def setState_def setError_def
        emit_def)
qed

lemma fetch_starts:
  "\<exists>rest. events (fetchSelectedPhotos env s w) = events w @ SetState FetchingPhotos # rest"
  by (auto simp add: fetchSelectedPhotos_def fetchSelectedPhotos_body_def download_loop_eq
      saveStep_def deleteStep_def setState_def setError_def emit_def Let_def
      split: sum.splits option.splits prod.splits if_splits)

text \<open>
  Claim C3. If the session first reports readiness on attempt \<open>k\<close>, \<open>1 \<le> k \<le> 60\<close>, the
  polling step hands over to \<^verbatim>\<open>fetchSelectedPhotos\<close> (whose first act is to set the state
  \<^verbatim>\<open>fetching-photos\<close>) after exactly \<open>k\<close> calls of \<^verbatim>\<open>getPickerSession\<close> and \<open>k - 1\<close> sleeps
  of 5000 ms, one after each unready attempt. \<^verbatim>\<open>waitForPhotoSelection\<close> returns \<^verbatim>\<open>true\<close>
  after the same calls.
\<close>

theorem poll_ready_at_k:
  assumes "1 \<le> k" and "k \<le> 60"
    and "\<forall>n<k - 1. \<exists>unready. sessionStatus env n = Inr unready \<and> \<not> mediaItemsSet unready"
    and "sessionStatus env (k - 1) = Inr sess" and "mediaItemsSet sess"
  shows "pollForSelection env s w =
           fetchSelectedPhotos env s
             (w\<lparr>events := events w @ concat (replicate (k - 1) [GetPickerSession s, Sleep 5000])
                                   @ [GetPickerSession s]\<rparr>)
       \<and> (\<exists>rest. events (pollForSelection env s w) =
                    events w @ concat (replicate (k - 1) [GetPickerSession s, Sleep 5000])
                      @ [GetPickerSession s, SetState FetchingPhotos] @ rest)
       \<and> waitForPhotoSelection env s =
           (True, concat (replicate (k - 1) [GetPickerSession s, Sleep 5000]) @ [GetPickerSession s])"
proof -
  have un: "\<forall>n. 0 \<le> n \<and> n < 0 + (k - 1)
              \<longrightarrow> (\<exists>unready. sessionStatus env n = Inr unready \<and> \<not> mediaItemsSet unready)"
    using assms(3) by simp
  have le: "0 + (k - 1) \<le> maxAttempts" using assms(2) by (simp add: maxAttempts_def)
  have lt: "k - 1 < maxAttempts" using assms(1,2) by (simp add: maxAttempts_def)
  have "poll_loop env s 0 w =
          poll_loop env s (0 + (k - 1))
            (w\<lparr>events := events w @ concat (replicate (k - 1) [GetPickerSession s, Sleep 5000])\<rparr>)"
    using un le by (rule poll_loop_unready)
  then have p: "pollForSelection env s w =
           fetchSelectedPhotos env s
             (w\<lparr>events := events w @ concat (replicate (k - 1) [GetPickerSession s, Sleep 5000])
                                   @ [GetPickerSession s]\<rparr>)"
    using poll_loop_ready [OF lt assms(4) assms(5), of s]
    by (simp add: pollForSelection_def emit_def)
  obtain rest where "events (fetchSelectedPhotos env s
             (w\<lparr>events := events w @ concat (replicate (k - 1) [GetPickerSession s, Sleep 5000])
                                   @ [GetPickerSession s]\<rparr>)) =
          events (w\<lparr>events := events w @ concat (replicate (k - 1) [GetPickerSession s, Sleep 5000])
                                   @ [GetPickerSession s]\<rparr>) @ SetState FetchingPhotos # rest"
    using fetch_starts by blast
  then have e: "\<exists>rest. events (pollForSelection env s w) =
                    events w @ concat (replicate (k - 1) [GetPickerSession s, Sleep 5000])
                      @ [GetPickerSession s, SetState FetchingPhotos] @ rest"
    by (simp add: p)
  have "wait_loop env s 0 [] =
          wait_loop env s (0 + (k - 1))
            ([] @ concat (replicate (k - 1) [GetPickerSession s, Sleep 5000]))"
    using un le by (rule wait_loop_unready)
  then have wt: "waitForPhotoSelection env s =
           (True, concat (replicate (k - 1) [GetPickerSession s, Sleep 5000]) @ [GetPickerSession s])"
    using wait_loop_ready [OF lt assms(4) assms(5), of s]
    by (simp add: waitForPhotoSelection_def)
  show ?thesis using p e wt by blast
qed

theorem poll_ready_at_k_witness:
  "waitForPhotoSelection (ready_at_env 3) ''s1'' =
     (True, [GetPickerSession ''s1'', Sleep 5000, GetPickerSession ''s1'', Sleep 5000,
             GetPickerSession ''s1''])
   \<and> (\<exists>rest. events (pollForSelection (ready_at_env 3) ''s1'' initial_screen) =
                [GetPickerSession ''s1'', Sleep 5000, GetPickerSession ''s1'', Sleep 5000,
                 GetPickerSession ''s1'', SetState FetchingPhotos] @ rest)"
proof -
  have h3: "\<forall>n<3 - 1. \<exists>unready. sessionStatus (ready_at_env 3) n = Inr unready
                                  \<and> \<not> mediaItemsSet unready"
    by (simp add: ready_at_env_def never_ready_env_def example_session_def)
  have h4: "sessionStatus (ready_at_env 3) (3 - 1) = Inr (example_session ''s1'' True)"
    by (simp add: ready_at_env_def never_ready_env_def)
  have h5: "mediaItemsSet (example_session ''s1'' True)"
    by (simp add: example_session_def)
  have e: "events initial_screen = []" by (simp add: initial_screen_def)
  have r: "concat (replicate (3 - 1) [GetPickerSession ''s1'', Sleep 5000])
             = [GetPickerSession ''s1'', Sleep 5000, GetPickerSession ''s1'', Sleep 5000]"
    by (simp add: numeral_2_eq_2)
  show ?thesis
    using poll_ready_at_k [OF _ _ h3 h4 h5, of "''s1''" initial_screen]
    unfolding r by (auto simp add: e)
qed

section \<open>The acquisition workflow: session cleanup\<close>

text \<open>
  Claim C4 at a failing input: the session \<^verbatim>\<open>s1\<close> is created, the first status call
  reports readiness, and \<^verbatim>\<open>fetchPickerMediaItems\<close> throws. The workflow ends in the error
  state and \<^verbatim>\<open>deletePickerSession\<close> is never called: the \<^verbatim>\<open>catch\<close> block of
  \<^verbatim>\<open>fetchSelectedPhotos\<close> has no cleanup, and the cleanup inside the \<^verbatim>\<open>try\<close> is skipped
  by the exception. \<^verbatim>\<open>pickPhotos\<close> lets the same exception escape without deleting the
  session.
\<close>

theorem fetch_failure_skips_cleanup:
  "events (startPicker fetch_failure_env initial_screen) =
     [SetState CreatingSession, CreatePickerSession, SetState PickerOpen,
      OpenBrowser ''https://photos.example/picker/s1'', SetState Polling,
      GetPickerSession ''s1'', SetState FetchingPhotos, FetchPickerMediaItems ''s1'',
      SetError ''Failed to fetch picker media items: 500'', SetState ErrorState]
   \<and> state (startPicker fetch_failure_env initial_screen) = ErrorState
   \<and> sessionId (startPicker fetch_failure_env initial_screen) = Some ''s1''
   \<and> DeletePickerSession ''s1'' \<notin> set (events (startPicker fetch_failure_env initial_screen))
   \<and> pickPhotos fetch_failure_env =
       (Inl (Error ''Failed to fetch picker media items: 500''),
        [CreatePickerSession, OpenBrowser ''https://photos.example/picker/s1'', Sleep 2000,
         GetPickerSession ''s1'', FetchPickerMediaItems ''s1''])"
proof -
  have s0: "sessionStatus fetch_failure_env 0 = Inr (example_session ''s1'' True)"
    by (simp add: fetch_failure_env_def ready_at_env_def never_ready_env_def)
  have rd: "mediaItemsSet (example_session ''s1'' True)"
    by (simp add: example_session_def)
  have lt: "0 < maxAttempts" by (simp add: maxAttempts_def)
  have p: "\<And>w. pollForSelection fetch_failure_env ''s1'' w
             = fetchSelectedPhotos fetch_failure_env ''s1'' (emit (GetPickerSession ''s1'') w)"
    unfolding pollForSelection_def by (rule poll_loop_ready [OF lt s0 rd])
  have w: "\<And>evs. wait_loop fetch_failure_env ''s1'' 0 evs = (True, evs @ [GetPickerSession ''s1''])"
    by (rule wait_loop_ready [OF lt s0 rd])
  have c: "createSession fetch_failure_env = Inr (example_session ''s1'' False)"
    "openBrowser fetch_failure_env = None"
    "mediaItems fetch_failure_env = Inl (Error ''Failed to fetch picker media items: 500'')"
    by (simp_all add: fetch_failure_env_def ready_at_env_def never_ready_env_def)
  have ev: "events (startPicker fetch_failure_env initial_screen) =
     [SetState CreatingSession, CreatePickerSession, SetState PickerOpen,
      OpenBrowser ''https://photos.example/picker/s1'', SetState Polling,
      GetPickerSession ''s1'', SetState FetchingPhotos, FetchPickerMediaItems ''s1'',
      SetError ''Failed to fetch picker media items: 500'', SetState ErrorState]"
    by (simp add: startPicker_def c p fetchSelectedPhotos_def fetchSelectedPhotos_body_def
        setState_def setError_def emit_def message_or_def example_session_def initial_screen_def)
  have st: "state (startPicker fetch_failure_env initial_screen) = ErrorState"
    "sessionId (startPicker fetch_failure_env initial_screen) = Some ''s1''"
    by (simp_all add: startPicker_def c p fetchSelectedPhotos_def fetchSelectedPhotos_body_def
        setState_def setError_def emit_def message_or_def example_session_def initial_screen_def)
  have nd: "DeletePickerSession ''s1'' \<notin> set (events (startPicker fetch_failure_env initial_screen))"
    unfolding ev by simp
  have pk: "pickPhotos fetch_failure_env =
       (Inl (Error ''Failed to fetch picker media items: 500''),
        [CreatePickerSession, OpenBrowser ''https://photos.example/picker/s1'', Sleep 2000,
         GetPickerSession ''s1'', FetchPickerMediaItems ''s1''])"
    by (simp add: pickPhotos_def c w example_session_def)
  show ?thesis using ev st nd pk by blast
qed

section \<open>The acquisition workflow: downloads\<close>

lemma fetch_body_items:
  assumes "mediaItems env = Inr (Some items)" and "items \<noteq> []"
  shows "fetchSelectedPhotos_body env s w =
     (if downloaded env items \<noteq> [] then
        (case saveStep env (map (widgetPhoto_of env) (downloaded env items))
                (w\<lparr>selectedPhotos := items, state := Downloading,
                   downloadProgress := (length items, length items),
                   events := events w @ [SetState FetchingPhotos, FetchPickerMediaItems s,
                                         SetState Downloading]
                               @ concat (map (\<lambda>(i, p). attempt_events env (length items) i p)
                                           (enumerate 0 items))\<rparr>) of
           Inl thrown_at \<Rightarrow> Inl thrown_at
         | Inr w3 \<Rightarrow> deleteStep env s w3)
      else deleteStep env s
             (w\<lparr>selectedPhotos := items,
                downloadProgress := (length items, length items),
                error := Some ''Failed to download photos'', state := ErrorState,
                events := events w @ [SetState FetchingPhotos, FetchPickerMediaItems s,
                                      SetState Downloading]
                            @ concat (map (\<lambda>(i, p). attempt_events env (length items) i p)
                                        (enumerate 0 items))
                            @ [SetError ''Failed to download photos'', SetState ErrorState]\<rparr>))"
  using assms
  by (simp add: fetchSelectedPhotos_body_def download_loop_eq downloaded_def Let_def
      setState_def setError_def emit_def)

lemma fst_download_loop:
  "fst (download_loop env (length items) 0 items [] w0)
     = map (widgetPhoto_of env) (downloaded env items)"
  by (simp add: download_loop_eq downloaded_def)

text \<open>
  What the download step does, for every list of selected items. The loop passes
  through every item in order whatever the earlier outcomes were, and the photos it
  collects are exactly those of the items whose download returned status 200, in their
  original order. If at least one item was downloaded, \<^verbatim>\<open>saveWidgetPhotos\<close> is called with
  exactly that list. If none was, the workflow sets the message "Failed to download
  photos" (for an empty selection, "No photos were selected") and the error state,
  never calls \<^verbatim>\<open>saveWidgetPhotos\<close>, leaves the stored record as it was, and then calls
  \<^verbatim>\<open>deletePickerSession\<close> inside the same \<^verbatim>\<open>try\<close>: when that call throws, the \<^verbatim>\<open>catch\<close> block
  sets a second message over the first.
\<close>

lemma download_step:
  assumes "mediaItems env = Inr (Some items)"
  shows "fst (download_loop env (length items) 0 items [] w0)
           = map (widgetPhoto_of env) (downloaded env items)
       \<and> (downloaded env items \<noteq> [] \<longrightarrow>
            (\<exists>rest. events (fetchSelectedPhotos env s w) =
                events w @ [SetState FetchingPhotos, FetchPickerMediaItems s, SetState Downloading]
                  @ concat (map (\<lambda>(i, p). attempt_events env (length items) i p)
                              (enumerate 0 items))
                  @ [SetState Saving,
                     SaveWidgetPhotos (map (widgetPhoto_of env) (downloaded env items))
                       (selectedDisplayMode w)]
                  @ rest)
            \<and> (os (storage env) = Android \<and> write_error (storage env) = None \<longrightarrow>
                 stored (fetchSelectedPhotos env s w) =
                   Some \<lparr>photos = map (widgetPhoto_of env) (downloaded env items),
                         currentIndex = 0, displayMode = selectedDisplayMode w,
                         lastUpdated = now (storage env), albumId = None,
                         rotationIntervalSeconds = None\<rparr>)
            \<and> (write_error (storage env) = None \<and> deleteSession env = None \<longrightarrow>
                 state (fetchSelectedPhotos env s w) = Done))
       \<and> (items \<noteq> [] \<and> downloaded env items = [] \<longrightarrow>
            events (fetchSelectedPhotos env s w) =
                events w @ [SetState FetchingPhotos, FetchPickerMediaItems s, SetState Downloading]
                  @ concat (map (\<lambda>(i, p). attempt_events env (length items) i p)
                              (enumerate 0 items))
                  @ [SetError ''Failed to download photos'', SetState ErrorState,
                     DeletePickerSession s]
                  @ (case deleteSession env of
                       None \<Rightarrow> []
                     | Some err \<Rightarrow>
                         [SetError (message_or err ''Failed to fetch selected photos''),
                          SetState ErrorState])
            \<and> state (fetchSelectedPhotos env s w) = ErrorState
            \<and> stored (fetchSelectedPhotos env s w) = stored w
            \<and> (\<forall>ps m. SaveWidgetPhotos ps m
                  \<notin> set (drop (length (events w)) (events (fetchSelectedPhotos env s w))))
            \<and> (deleteSession env = None \<longrightarrow>
                 error (fetchSelectedPhotos env s w) = Some ''Failed to download photos''))
       \<and> (items = [] \<longrightarrow>
            state (fetchSelectedPhotos env s w) = ErrorState
            \<and> stored (fetchSelectedPhotos env s w) = stored w
            \<and> (\<forall>ps m. SaveWidgetPhotos ps m
                  \<notin> set (drop (length (events w)) (events (fetchSelectedPhotos env s w))))
            \<and> (deleteSession env = None \<longrightarrow>
                 error (fetchSelectedPhotos env s w) = Some ''No photos were selected''))"
proof (intro conjI impI)
  show "fst (download_loop env (length items) 0 items [] w0)
           = map (widgetPhoto_of env) (downloaded env items)"
    by (rule fst_download_loop)
next
  assume ne: "downloaded env items \<noteq> []"
  then have ne0: "items \<noteq> []" by (auto simp add: downloaded_def)
  show "\<exists>rest. events (fetchSelectedPhotos env s w) =
                events w @ [SetState FetchingPhotos, FetchPickerMediaItems s, SetState Downloading]
                  @ concat (map (\<lambda>(i, p). attempt_events env (length items) i p)
                              (enumerate 0 items))
                  @ [SetState Saving,
                     SaveWidgetPhotos (map (widgetPhoto_of env) (downloaded env items))
                       (selectedDisplayMode w)]
                  @ rest"
    using ne
    by (auto simp add: fetchSelectedPhotos_def fetch_body_items [OF assms ne0] saveStep_def
        deleteStep_def setState_def setError_def emit_def
        split: sum.splits option.splits prod.splits)
next
  assume ne: "downloaded env items \<noteq> []"
    and ok: "os (storage env) = Android \<and> write_error (storage env) = None"
  from ne have ne0: "items \<noteq> []" by (auto simp add: downloaded_def)
  show "stored (fetchSelectedPhotos env s w) =
                   Some \<lparr>photos = map (widgetPhoto_of env) (downloaded env items),
                         currentIndex = 0, displayMode = selectedDisplayMode w,
                         lastUpdated = now (storage env), albumId = None,
                         rotationIntervalSeconds = None\<rparr>"
    using ne ok
    by (simp add: fetchSelectedPhotos_def fetch_body_items [OF assms ne0] saveStep_def
        deleteStep_def saveWidgetPhotos_def saveWidgetData_def setState_def setError_def emit_def
        split: option.splits)
next
  assume ne: "downloaded env items \<noteq> []"
    and ok: "write_error (storage env) = None \<and> deleteSession env = None"
  from ne have ne0: "items \<noteq> []" by (auto simp add: downloaded_def)
  show "state (fetchSelectedPhotos env s w) = Done"
    using ne ok
    by (simp add: fetchSelectedPhotos_def fetch_body_items [OF assms ne0] saveStep_def
        deleteStep_def saveWidgetPhotos_def saveWidgetData_def setState_def setError_def emit_def)
next
  assume both: "items \<noteq> [] \<and> downloaded env items = []"
  then have ne0: "items \<noteq> []" and em: "downloaded env items = []" by simp_all
  show ev: "events (fetchSelectedPhotos env s w) =
                events w @ [SetState FetchingPhotos, FetchPickerMediaItems s, SetState Downloading]
                  @ concat (map (\<lambda>(i, p). attempt_events env (length items) i p)
                              (enumerate 0 items))
                  @ [SetError ''Failed to download photos'', SetState ErrorState,
                     DeletePickerSession s]
                  @ (case deleteSession env of
                       None \<Rightarrow> []
                     | Some err \<Rightarrow>
                         [SetError (message_or err ''Failed to fetch selected photos''),
                          SetState ErrorState])"
    using em
    by (simp add: fetchSelectedPhotos_def fetch_body_items [OF assms ne0] deleteStep_def
        setState_def setError_def emit_def split: option.splits)
  show "state (fetchSelectedPhotos env s w) = ErrorState"
    using em
    by (simp add: fetchSelectedPhotos_def fetch_body_items [OF assms ne0] deleteStep_def
        setState_def setError_def emit_def split: option.splits)
  show "stored (fetchSelectedPhotos env s w) = stored w"
    using em
    by (simp add: fetchSelectedPhotos_def fetch_body_items [OF assms ne0] deleteStep_def
        setState_def setError_def emit_def split: option.splits)
  show "\<forall>ps m. SaveWidgetPhotos ps m
                  \<notin> set (drop (length (events w)) (events (fetchSelectedPhotos env s w)))"
    unfolding ev
    by (auto simp add: attempt_events_def split: option.splits download_outcome.splits)
next
  assume both: "items \<noteq> [] \<and> downloaded env items = []" and d: "deleteSession env = None"
  then have ne0: "items \<noteq> []" and em: "downloaded env items = []" by simp_all
  show "error (fetchSelectedPhotos env s w) = Some ''Failed to download photos''"
    using em d
    by (simp add: fetchSelectedPhotos_def fetch_body_items [OF assms ne0] deleteStep_def
        setState_def setError_def emit_def)
next
  assume e: "items = []"
  show "state (fetchSelectedPhotos env s w) = ErrorState"
    using assms e
    by (simp add: fetchSelectedPhotos_def fetchSelectedPhotos_body_def deleteStep_def Let_def
        setState_def setError_def emit_def split: option.splits)
  show "stored (fetchSelectedPhotos env s w) = stored w"
    using assms e
    by (simp add: fetchSelectedPhotos_def fetchSelectedPhotos_body_def deleteStep_def Let_def
        setState_def setError_def emit_def split: option.splits)
  show "\<forall>ps m. SaveWidgetPhotos ps m
                  \<notin> set (drop (length (events w)) (events (fetchSelectedPhotos env s w)))"
    using assms e
    by (simp add: fetchSelectedPhotos_def fetchSelectedPhotos_body_def deleteStep_def Let_def
        setState_def setError_def emit_def split: option.splits)
next
  assume e: "items = []" and d: "deleteSession env = None"
  show "error (fetchSelectedPhotos env s w) = Some ''No photos were selected''"
    using assms e d
    by (simp add: fetchSelectedPhotos_def fetchSelectedPhotos_body_def deleteStep_def Let_def
        setState_def setError_def emit_def)
qed

lemma downloaded_third_fails:
  "downloaded third_fails_env five_items
     = [example_item ''p1'', example_item ''p2'', example_item ''p4'', example_item ''p5'']"
  by (simp add: downloaded_def third_fails_env_def five_items_def)

lemma downloaded_all_fail: "downloaded all_fail_env five_items = []"
  by (simp add: downloaded_def all_fail_env_def five_items_def)

lemma download_step_examples:
  "stored (fetchSelectedPhotos third_fails_env ''s1'' initial_screen) =
     Some \<lparr>photos = map (widgetPhoto_of third_fails_env)
                      [example_item ''p1'', example_item ''p2'', example_item ''p4'',
                       example_item ''p5''],
           currentIndex = 0, displayMode = Slideshow, lastUpdated = 2000, albumId = None,
           rotationIntervalSeconds = None\<rparr>
   \<and> state (fetchSelectedPhotos third_fails_env ''s1'' initial_screen) = Done
   \<and> state (fetchSelectedPhotos all_fail_env ''s1'' initial_screen) = ErrorState
   \<and> error (fetchSelectedPhotos all_fail_env ''s1'' initial_screen)
       = Some ''Failed to download photos''
   \<and> stored (fetchSelectedPhotos all_fail_env ''s1'' initial_screen) = Some one_photo
   \<and> (\<forall>ps m. SaveWidgetPhotos ps m
         \<notin> set (events (fetchSelectedPhotos all_fail_env ''s1'' initial_screen)))"
proof -
  have a1: "mediaItems third_fails_env = Inr (Some five_items)"
    by (simp add: third_fails_env_def)
  have b1: "mediaItems all_fail_env = Inr (Some five_items)"
    by (simp add: all_fail_env_def)
  have n: "five_items \<noteq> []" by (simp add: five_items_def)
  have io: "os (storage third_fails_env) = Android" "write_error (storage third_fails_env) = None"
    "now (storage third_fails_env) = 2000" "deleteSession third_fails_env = None"
    "deleteSession all_fail_env = None"
    by (simp_all add: third_fails_env_def all_fail_env_def ready_at_env_def never_ready_env_def
        io_android_def)
  have i: "events initial_screen = []" "stored initial_screen = Some one_photo"
    "selectedDisplayMode initial_screen = Slideshow"
    by (simp_all add: initial_screen_def)
  show ?thesis
    using download_step [OF a1, of initial_screen "''s1''" initial_screen]
      download_step [OF b1, of initial_screen "''s1''" initial_screen]
    by (clarsimp simp add: downloaded_third_fails downloaded_all_fail io i n)
qed

lemma widgetPhoto_of_fields:
  "photo_id (widgetPhoto_of env p) = item_id p"
  "url (widgetPhoto_of env p) = cacheDirectory env @ ''widget-photos/'' @ item_id p @ ''.jpg''"
  "localPath (widgetPhoto_of env p) = Some (url (widgetPhoto_of env p))"
  "width (widgetPhoto_of env p) = 512" "height (widgetPhoto_of env p) = 512"
  by (simp_all add: widgetPhoto_of_def localPath_of_def)

lemma committed_ids:
  "map photo_id (map (widgetPhoto_of env) (downloaded env items)) = map item_id (downloaded env items)"
  by (simp add: widgetPhoto_of_fields)

text \<open>
  Claim C1 at a failing input: five items are selected, every download throws, and
  \<^verbatim>\<open>deletePickerSession\<close> throws \<^verbatim>\<open>Error("Network request failed")\<close>. The workflow first sets
  the message "Failed to download photos" and the error state, as the claim says, and
  does not call \<^verbatim>\<open>saveWidgetPhotos\<close>; but the session cleanup runs inside the same \<^verbatim>\<open>try\<close>,
  its exception reaches the \<^verbatim>\<open>catch\<close> block, and the workflow ends with the message of the
  cleanup's exception in place of the empty-selection message. With the same downloads
  and a cleanup that returns, the message stays. (\<^verbatim>\<open>pollForSelection\<close> wraps the same
  cleanup call in its own \<^verbatim>\<open>try\<close> with an empty \<^verbatim>\<open>catch\<close>.)
\<close>

theorem empty_download_error_overwritten:
  "error (fetchSelectedPhotos all_fail_delete_throws_env ''s1'' initial_screen)
     = Some ''Network request failed''
   \<and> error (fetchSelectedPhotos all_fail_delete_throws_env ''s1'' initial_screen)
       \<noteq> Some ''Failed to download photos''
   \<and> state (fetchSelectedPhotos all_fail_delete_throws_env ''s1'' initial_screen) = ErrorState
   \<and> stored (fetchSelectedPhotos all_fail_delete_throws_env ''s1'' initial_screen)
       = stored initial_screen
   \<and> filter (\<lambda>e. case e of SetError m \<Rightarrow> True | _ \<Rightarrow> False)
        (events (fetchSelectedPhotos all_fail_delete_throws_env ''s1'' initial_screen))
       = [SetError ''Failed to download photos'', SetError ''Network request failed'']
   \<and> error (fetchSelectedPhotos all_fail_env ''s1'' initial_screen)
       = Some ''Failed to download photos''"
proof -
  have m: "mediaItems all_fail_delete_throws_env = Inr (Some five_items)"
    "mediaItems all_fail_env = Inr (Some five_items)"
    by (simp_all add: all_fail_delete_throws_env_def all_fail_env_def)
  have n: "five_items \<noteq> []" by (simp add: five_items_def)
  have d: "downloaded all_fail_delete_throws_env five_items = []"
    by (simp add: downloaded_def all_fail_delete_throws_env_def all_fail_env_def five_items_def)
  have del: "deleteSession all_fail_delete_throws_env = Some (Error ''Network request failed'')"
    "deleteSession all_fail_env = None"
    by (simp_all add: all_fail_delete_throws_env_def all_fail_env_def ready_at_env_def
        never_ready_env_def)
  have dl: "\<And>i. download all_fail_delete_throws_env i = DownloadThrows"
    by (simp add: all_fail_delete_throws_env_def all_fail_env_def)
  have er: "error (fetchSelectedPhotos all_fail_delete_throws_env ''s1'' initial_screen)
              = Some ''Network request failed''"
    by (simp add: fetchSelectedPhotos_def fetch_body_items [OF m(1) n] d del deleteStep_def
        setState_def setError_def emit_def message_or_def)
  have st: "state (fetchSelectedPhotos all_fail_delete_throws_env ''s1'' initial_screen) = ErrorState"
    "stored (fetchSelectedPhotos all_fail_delete_throws_env ''s1'' initial_screen)
       = stored initial_screen"
    by (simp_all add: fetchSelectedPhotos_def fetch_body_items [OF m(1) n] d del deleteStep_def
        setState_def setError_def emit_def message_or_def)
  have e1: "events (fetchSelectedPhotos all_fail_delete_throws_env ''s1'' initial_screen) =
        events initial_screen
          @ [SetState FetchingPhotos, FetchPickerMediaItems ''s1'', SetState Downloading]
          @ concat (map (\<lambda>(i, p). attempt_events all_fail_delete_throws_env (length five_items) i p)
                      (enumerate 0 five_items))
          @ [SetError ''Failed to download photos'', SetState ErrorState,
             DeletePickerSession ''s1'', SetError ''Network request failed'',
             SetState ErrorState]"
    by (simp add: fetchSelectedPhotos_def fetch_body_items [OF m(1) n] d del deleteStep_def
        setState_def setError_def emit_def message_or_def)
  have ev: "filter (\<lambda>e. case e of SetError m \<Rightarrow> True | _ \<Rightarrow> False)
        (events (fetchSelectedPhotos all_fail_delete_throws_env ''s1'' initial_screen))
       = [SetError ''Failed to download photos'', SetError ''Network request failed'']"
    unfolding e1
    by (simp add: initial_screen_def five_items_def attempt_events_def dl)
  have ok: "error (fetchSelectedPhotos all_fail_env ''s1'' initial_screen)
              = Some ''Failed to download photos''"
    by (simp add: fetchSelectedPhotos_def fetch_body_items [OF m(2) n] downloaded_all_fail del
        deleteStep_def setState_def setError_def emit_def)
  show ?thesis using er st ev ok by simp
qed

end
